theory Spec2Isabelle
  imports Complex_Main "HOL-Library.Multiset" "HOL-Library.Char_ord" "HOL-Library.List_Lexorder"
begin

section \<open>Data model of the samplers package\<close>

text \<open>
  The Go source works on \<open>interface{}\<close> values through reflection. The model keeps
  the values a flat struct can hold as a closed variant; a value carries the name of its
  Go type, since the source compares \<open>reflect.TypeOf\<close> of two cells. Pointers and nil
  interfaces are outside the model; identifiers are ASCII.

  The type parameter \<open>'f\<close> stands for \<open>float64\<close>; the operations on it, and the
  functions of Go's standard library that the source calls, are the fields of the
  record \<open>golib\<close> below, passed to every function that needs them.
\<close>

datatype sortType = sortNone | sortAsc | sortDesc | sortAscNum | sortDescNum

text \<open>\<open>columndetails\<close>; the field \<open>convfunc\<close> is never read or written by the source.
  The zero value is what a Go map lookup gives for a missing key.\<close>

record columndetails =
  tags :: string
  name :: string
  number :: nat
  format :: string
  sort_c :: sortType

definition zero_columndetails :: columndetails where
  "zero_columndetails = \<lparr>tags = [], name = [], number = 0, format = [], sort_c = sortNone\<rparr>"

type_synonym Columns = "string \<rightharpoonup> columndetails"

text \<open>\<open>c[key]\<close> on a Go map: the zero value when the key is missing.\<close>

definition index_c :: "Columns \<Rightarrow> string \<Rightarrow> columndetails" where
  "index_c c k = (case c k of None \<Rightarrow> zero_columndetails | Some d \<Rightarrow> d)"

text \<open>A field value: the name of its Go type and the value itself. \<open>VInt\<close> covers
  the signed and unsigned integer kinds, \<open>VFloat\<close> float32 and float64.\<close>

datatype 'f govalue =
    VBool string bool
  | VInt string int
  | VFloat string 'f
  | VString string string

datatype gokind = KBool | KInt | KFloat | KString

fun KindOf :: "'f govalue \<Rightarrow> gokind" where
  "KindOf (VBool _ _) = KBool"
| "KindOf (VInt _ _) = KInt"
| "KindOf (VFloat _ _) = KFloat"
| "KindOf (VString _ _) = KString"

fun TypeName :: "'f govalue \<Rightarrow> string" where
  "TypeName (VBool t _) = t"
| "TypeName (VInt t _) = t"
| "TypeName (VFloat t _) = t"
| "TypeName (VString t _) = t"

text \<open>\<open>reflect.TypeOf\<close>: two values have the same type when kind and type name agree.\<close>

definition TypeOf :: "'f govalue \<Rightarrow> gokind \<times> string" where
  "TypeOf v = (KindOf v, TypeName v)"

text \<open>\<open>reflect.Value\<close> as far as the source inspects it: the zero Value (what
  \<open>MapIndex\<close> returns for a missing key), a struct with its fields in declaration
  order, a slice, a map with its entries in the order \<open>MapKeys\<close> lists them, or
  a single value.\<close>

datatype 'f rvalue =
    Invalid
  | Scalar "'f govalue"
  | Struct "(string \<times> 'f govalue) list"
  | Slice "'f rvalue list"
  | Map "(string \<times> 'f rvalue) list"

text \<open>A struct type as \<open>ColumnInfo\<close> reads it: each field's name and its
  \<open>column\<close> tag, if it has one.\<close>

datatype rtype = StructType "(string \<times> string option) list" | OtherType

text \<open>The errors the source builds with \<open>fmt.Errorf\<close>, and the run-time panics: an
  index out of range, \<open>reflect\<close>'s \<open>Field\<close> on a missing field, and \<open>reflect\<close>'s
  \<open>Interface\<close> on the value of an unexported field.\<close>

datatype error =
    ErrNotStruct
  | ErrNonMap
  | ErrNonSlice
  | ErrTypeMismatch
  | ErrRowNotStruct
  | ErrRedefined string

datatype panic = IndexOutOfRange | FieldOutOfBounds | UnexportedField

text \<open>\<open>sort.Slice\<close> touches the slice only through the two closures it is given:
  \<open>less(i, j)\<close>, and the swap of the elements at \<open>i\<close> and \<open>j\<close>. For a slice of a given
  length it is therefore a decision tree over these two operations, whatever the
  version of the library.\<close>

datatype sortprog = Stop | DoSwap nat nat sortprog | IfLess nat nat sortprog sortprog

text \<open>The standard library, as far as the source calls it.
  \<open>Sprintf\<close> is \<open>fmt.Sprintf\<close> with one operand; \<open>ParseFloat\<close> is the value
  \<open>strconv.ParseFloat(s, 64)\<close> returns, its error dropped as the source drops it;
  \<open>IntToFloat\<close> is the conversion of an integer to float64; \<open>Seconds\<close> is
  \<open>time.Duration.Seconds\<close> on a number of nanoseconds; \<open>SortProgram n\<close> is what
  \<open>sort.Slice\<close> does on a slice of \<open>n\<close> elements when \<open>n\<close> is above 6; the rest is
  float64 arithmetic and comparison.\<close>

record 'f golib =
  Sprintf :: "string \<Rightarrow> 'f govalue \<Rightarrow> string"
  ParseFloat :: "string \<Rightarrow> 'f"
  IntToFloat :: "int \<Rightarrow> 'f"
  Seconds :: "int \<Rightarrow> 'f"
  SortProgram :: "nat \<Rightarrow> sortprog"
  fsub :: "'f \<Rightarrow> 'f \<Rightarrow> 'f"
  fdiv :: "'f \<Rightarrow> 'f \<Rightarrow> 'f"
  feq :: "'f \<Rightarrow> 'f \<Rightarrow> bool"
  flt :: "'f \<Rightarrow> 'f \<Rightarrow> bool"
  fge :: "'f \<Rightarrow> 'f \<Rightarrow> bool"

text \<open>The fields of \<open>Samplers\<close> that the table helpers read.\<close>

record Samplers =
  interval :: int
  columns :: Columns
  columnnames :: "string list"
  sortcolumn :: string

section \<open>String helpers of package strings\<close>

text \<open>\<open>strings.Split(s, ",")\<close> for a one-byte separator: always at least one piece.\<close>

fun Split :: "string \<Rightarrow> char \<Rightarrow> string list" where
  "Split [] sep = [[]]"
| "Split (ch # cs) sep =
     (if ch = sep then [] # Split cs sep
      else (case Split cs sep of [] \<Rightarrow> [[ch]] | w # ws \<Rightarrow> (ch # w) # ws))"

text \<open>\<open>strings.IndexByte\<close>: \<open>None\<close> stands for -1.\<close>

fun IndexByte :: "string \<Rightarrow> char \<Rightarrow> nat option" where
  "IndexByte [] b = None"
| "IndexByte (ch # cs) b =
     (if ch = b then Some 0 else map_option Suc (IndexByte cs b))"

definition HasSuffix :: "string \<Rightarrow> string \<Rightarrow> bool" where
  "HasSuffix s suffix =
     (length suffix \<le> length s \<and> drop (length s - length suffix) s = suffix)"

section \<open>parseTags\<close>

text \<open>The body of the \<open>switch prefix\<close> for one clause \<open>t\<close> with \<open>=\<close> at index \<open>i\<close>.
  \<open>t[i+1]\<close> panics when the clause ends with the \<open>=\<close>.\<close>

definition parseClause :: "columndetails \<Rightarrow> string \<Rightarrow> nat \<Rightarrow> panic + columndetails" where
  "parseClause cols t i =
     (let prefix = take i t in
      if prefix = ''sort'' then
        (if i + 1 < length t then
           (let c1 = cols\<lparr>sort_c := sortAsc\<rparr>;
                c2 = (if t ! (i + 1) = CHR ''-'' then c1\<lparr>sort_c := sortDesc\<rparr> else c1)
            in if HasSuffix (drop (i + 1) t) ''num''
               then (if sort_c c2 = sortAsc then Inr (c2\<lparr>sort_c := sortAscNum\<rparr>)
                     else Inr (c2\<lparr>sort_c := sortDescNum\<rparr>))
               else Inr c2)
         else Inl IndexOutOfRange)
      else if prefix = ''format'' then Inr (cols\<lparr>format := drop (i + 1) t\<rparr>)
      else Inr cols)"

text \<open>The loop over the clauses. The result is the pair the Go function returns,
  \<open>(cols, err)\<close>, or the panic.\<close>

fun parseClauses :: "string \<Rightarrow> columndetails \<Rightarrow> string list
    \<Rightarrow> panic + (columndetails \<times> error option)" where
  "parseClauses fieldname cols [] = Inr (cols, None)"
| "parseClauses fieldname cols (t # ts) =
     (case IndexByte t (CHR ''='') of
        None \<Rightarrow>
          (if name cols \<noteq> fieldname then Inr (cols, Some (ErrRedefined (name cols)))
           else parseClauses fieldname (cols\<lparr>name := t\<rparr>) ts)
      | Some i \<Rightarrow>
          (case parseClause cols t i of
             Inl p \<Rightarrow> Inl p
           | Inr cols' \<Rightarrow> parseClauses fieldname cols' ts))"

definition parseTags :: "string \<Rightarrow> string \<Rightarrow> panic + (columndetails \<times> error option)" where
  "parseTags fieldname tag =
     parseClauses fieldname
       \<lparr>tags = tag, name = fieldname, number = 0, format = ''%v'', sort_c = sortNone\<rparr>
       (Split tag (CHR '',''))"

section \<open>ColumnInfo\<close>

text \<open>The loop of \<open>ColumnInfo\<close> from field \<open>i\<close> on, with the results so far.\<close>

fun ColumnInfo_loop :: "nat \<Rightarrow> (string \<times> string option) list \<Rightarrow> Columns \<Rightarrow> string list
    \<Rightarrow> string \<Rightarrow> panic + (Columns \<times> string list \<times> string \<times> error option)" where
  "ColumnInfo_loop i [] cols cnames sorting = Inr (cols, cnames, sorting, None)"
| "ColumnInfo_loop i ((fieldname, None) # fs) cols cnames sorting =
     (let column = zero_columndetails\<lparr>name := fieldname, number := i, format := ''%v''\<rparr>
      in ColumnInfo_loop (Suc i) fs (cols(fieldname \<mapsto> column))
           (if name column \<noteq> ''OMIT'' then cnames @ [name column] else cnames) sorting)"
| "ColumnInfo_loop i ((fieldname, Some tg) # fs) cols cnames sorting =
     (case parseTags fieldname tg of
        Inl p \<Rightarrow> Inl p
      | Inr (column0, Some e) \<Rightarrow> Inr (cols, cnames, sorting, Some e)
      | Inr (column0, None) \<Rightarrow>
          (let sorting' = (if sort_c column0 \<noteq> sortNone then fieldname else sorting);
               column = column0\<lparr>number := i\<rparr>
           in ColumnInfo_loop (Suc i) fs (cols(fieldname \<mapsto> column))
                (if name column \<noteq> ''OMIT'' then cnames @ [name column] else cnames) sorting'))"

text \<open>\<open>rt.Field(0)\<close> panics on a struct without fields.\<close>

definition ColumnInfo :: "rtype \<Rightarrow> panic + (Columns \<times> string list \<times> string \<times> error option)" where
  "ColumnInfo rowdata =
     (case rowdata of
        OtherType \<Rightarrow> Inr (Map.empty, [], [], Some ErrNotStruct)
      | StructType [] \<Rightarrow> Inl FieldOutOfBounds
      | StructType (f # fs) \<Rightarrow> ColumnInfo_loop 0 (f # fs) Map.empty [] (fst f))"

section \<open>Projecting and rendering rows\<close>

text \<open>A field is exported when its name starts with an upper-case letter.
  \<open>rv.Field(i).Interface()\<close> panics on a field that is not.\<close>

definition exported :: "string \<Rightarrow> bool" where
  "exported fieldname =
     (case fieldname of [] \<Rightarrow> False | ch # _ \<Rightarrow> CHR ''A'' \<le> ch \<and> ch \<le> CHR ''Z'')"

text \<open>The loop of \<open>rowFromStruct\<close> over the fields, with the row so far.\<close>

fun fieldValues :: "(string \<times> 'f govalue) list \<Rightarrow> 'f govalue list \<Rightarrow> panic + 'f govalue list" where
  "fieldValues [] row = Inr row"
| "fieldValues ((fieldname, v) # fs) row =
     (if exported fieldname then fieldValues fs (row @ [v]) else Inl UnexportedField)"

text \<open>\<open>rowFromStruct\<close>: the field values in declaration order, or no row and an error.
  The registry argument is not used by the source either.\<close>

definition rowFromStruct :: "Columns \<Rightarrow> 'f rvalue
    \<Rightarrow> panic + ('f govalue list \<times> error option)" where
  "rowFromStruct c rv =
     (case rv of
        Struct fs \<Rightarrow> (case fieldValues fs [] of Inl p \<Rightarrow> Inl p | Inr row \<Rightarrow> Inr (row, None))
      | _ \<Rightarrow> Inr ([], Some ErrRowNotStruct))"

text \<open>The names the loops read through \<open>t.Field(i).Name\<close>, where \<open>t\<close> is the type of the
  value; the loops run over \<open>rawcells\<close>, which is empty for anything but a struct, so
  \<open>t.Field\<close> is called on struct types only.\<close>

definition fieldNames :: "'f rvalue \<Rightarrow> string list" where
  "fieldNames rv = (case rv of Struct fs \<Rightarrow> map fst fs | _ \<Rightarrow> [])"

text \<open>The inner loop of \<open>RowsFromMap\<close> and \<open>RowsFromSlice\<close>, over the field names paired
  with \<open>rawcells\<close>.\<close>

fun renderCells :: "'f golib \<Rightarrow> Columns \<Rightarrow> (string \<times> 'f govalue) list \<Rightarrow> string list
    \<Rightarrow> string list" where
  "renderCells lib c [] cells = cells"
| "renderCells lib c ((fieldname, v) # fs) cells =
     (if name (index_c c fieldname) = ''OMIT'' then renderCells lib c fs cells
      else renderCells lib c fs (cells @ [Sprintf lib (format (index_c c fieldname)) v]))"

text \<open>The outer loop of \<open>RowsFromSlice\<close> over the elements, and of \<open>RowsFromMap\<close> over
  the values of the keys: the two loop bodies are the same.\<close>

fun buildRows :: "'f golib \<Rightarrow> Columns \<Rightarrow> 'f rvalue list \<Rightarrow> string list list
    \<Rightarrow> panic + string list list" where
  "buildRows lib c [] rows = Inr rows"
| "buildRows lib c (v # vs) rows =
     (case rowFromStruct c v of
        Inl p \<Rightarrow> Inl p
      | Inr (rawcells, _) \<Rightarrow>
          buildRows lib c vs (rows @ [renderCells lib c (zip (fieldNames v) rawcells) []]))"

text \<open>\<open>RowsFromSlice\<close>: no sorting.\<close>

definition RowsFromSlice :: "Samplers \<Rightarrow> 'f golib \<Rightarrow> 'f rvalue
    \<Rightarrow> panic + (string list list \<times> error option)" where
  "RowsFromSlice s lib rowdata =
     (case rowdata of
        Slice vs \<Rightarrow>
          (case buildRows lib (columns s) vs [] of
             Inl p \<Rightarrow> Inl p
           | Inr rows \<Rightarrow> Inr (rows, None))
      | _ \<Rightarrow> Inr ([], Some ErrNonSlice))"

section \<open>sortRows\<close>

text \<open>The comparison closure handed to \<open>sort.Slice\<close>, on the two rows it indexes.
  Every branch reads \<open>rows[a][sortby]\<close> and \<open>rows[b][sortby]\<close>, which panics when
  a row has no such cell.\<close>

definition less_rows :: "'f golib \<Rightarrow> sortType \<Rightarrow> nat \<Rightarrow> string list \<Rightarrow> string list
    \<Rightarrow> panic + bool" where
  "less_rows lib sorttype sortby ra rb =
     (if sortby < length ra \<and> sortby < length rb then
        (let sa = ra ! sortby; sb = rb ! sortby in
         case sorttype of
           sortDesc \<Rightarrow> Inr (sa \<ge> sb)
         | sortAscNum \<Rightarrow>
             (let an = ParseFloat lib sa; bn = ParseFloat lib sb
              in if feq lib an bn then Inr (sa < sb) else Inr (flt lib an bn))
         | sortDescNum \<Rightarrow>
             (let an = ParseFloat lib sa; bn = ParseFloat lib sb
              in if feq lib an bn then Inr (sa \<ge> sb) else Inr (fge lib an bn))
         | _ \<Rightarrow> Inr (sa < sb))
      else Inl IndexOutOfRange)"

text \<open>\<open>sort.Slice\<close> belongs to Go's standard library. On a slice of at most 6 elements
  every version of it runs plain insertion sort: element \<open>i\<close> moves left while
  \<open>less(j, j-1)\<close> holds. (Since Go 1.19 that is so up to 12 elements; before, a pass
  with gap 6 comes first on 7 to 12 elements.) \<open>sink\<close> is the inner loop, on the
  elements to the left of \<open>x\<close>, nearest first; \<open>insertion\<close> is the outer loop.\<close>

fun sink :: "('a \<Rightarrow> 'a \<Rightarrow> panic + bool) \<Rightarrow> 'a \<Rightarrow> 'a list \<Rightarrow> panic + 'a list" where
  "sink lessf x [] = Inr [x]"
| "sink lessf x (y # ys) =
     (case lessf x y of
        Inl p \<Rightarrow> Inl p
      | Inr True \<Rightarrow> (case sink lessf x ys of Inl p \<Rightarrow> Inl p | Inr zs \<Rightarrow> Inr (y # zs))
      | Inr False \<Rightarrow> Inr (x # y # ys))"

fun insertion :: "('a \<Rightarrow> 'a \<Rightarrow> panic + bool) \<Rightarrow> 'a list \<Rightarrow> 'a list \<Rightarrow> panic + 'a list" where
  "insertion lessf left [] = Inr (rev left)"
| "insertion lessf left (x # xs) =
     (case sink lessf x left of Inl p \<Rightarrow> Inl p | Inr left' \<Rightarrow> insertion lessf left' xs)"

text \<open>On a longer slice the library runs the decision tree for its length. An index
  outside the slice panics, in the closure or in the swap.\<close>

fun runprog :: "sortprog \<Rightarrow> ('a \<Rightarrow> 'a \<Rightarrow> panic + bool) \<Rightarrow> 'a list \<Rightarrow> panic + 'a list" where
  "runprog Stop lessf xs = Inr xs"
| "runprog (DoSwap i j p) lessf xs =
     (if i < length xs \<and> j < length xs then runprog p lessf (xs[i := xs ! j, j := xs ! i])
      else Inl IndexOutOfRange)"
| "runprog (IfLess i j pt pf) lessf xs =
     (if i < length xs \<and> j < length xs then
        (case lessf (xs ! i) (xs ! j) of
           Inl p \<Rightarrow> Inl p
         | Inr True \<Rightarrow> runprog pt lessf xs
         | Inr False \<Rightarrow> runprog pf lessf xs)
      else Inl IndexOutOfRange)"

definition SortSlice :: "'f golib \<Rightarrow> ('a \<Rightarrow> 'a \<Rightarrow> panic + bool) \<Rightarrow> 'a list \<Rightarrow> panic + 'a list" where
  "SortSlice lib lessf xs =
     (if length xs \<le> 6 then insertion lessf [] xs
      else runprog (SortProgram lib (length xs)) lessf xs)"

definition sortRows :: "Columns \<Rightarrow> 'f golib \<Rightarrow> string list list \<Rightarrow> string
    \<Rightarrow> panic + string list list" where
  "sortRows c lib rows sortcol =
     (let sorttype = sort_c (index_c c sortcol); sortby = number (index_c c sortcol)
      in SortSlice lib (less_rows lib sorttype sortby) rows)"

section \<open>RowsFromMap\<close>

definition RowsFromMap :: "Samplers \<Rightarrow> 'f golib \<Rightarrow> 'f rvalue
    \<Rightarrow> panic + (string list list \<times> error option)" where
  "RowsFromMap s lib rowdata =
     (case rowdata of
        Map es \<Rightarrow>
          (case buildRows lib (columns s) (map snd es) [] of
             Inl p \<Rightarrow> Inl p
           | Inr built \<Rightarrow>
               (case sortRows (columns s) lib built (sortcolumn s) of
                  Inl p \<Rightarrow> Inl p
                | Inr rows \<Rightarrow> Inr (rows, None)))
      | _ \<Rightarrow> Inr ([], Some ErrNonMap))"

section \<open>RowsFromMapDelta\<close>

text \<open>\<open>toFloat\<close>: integer and float kinds convert to float64, nothing else does.\<close>

fun toFloat :: "'f golib \<Rightarrow> 'f govalue \<Rightarrow> 'f option" where
  "toFloat lib (VInt _ n) = Some (IntToFloat lib n)"
| "toFloat lib (VFloat _ x) = Some x"
| "toFloat lib (VBool _ _) = None"
| "toFloat lib (VString _ _) = None"

text \<open>\<open>rold.MapIndex(k)\<close>: the zero Value for a key the map does not have.\<close>

definition MapIndex :: "(string \<times> 'f rvalue) list \<Rightarrow> string \<Rightarrow> 'f rvalue" where
  "MapIndex es k = (case map_of es k of None \<Rightarrow> Invalid | Some v \<Rightarrow> v)"

text \<open>The inner loop of \<open>RowsFromMapDelta\<close> from field \<open>i\<close> on. \<open>rawold[i]\<close> panics
  when the old row is shorter. On a type mismatch the function returns at once; the
  cells collected for this row are dropped.\<close>

fun deltaCells :: "'f golib \<Rightarrow> Columns \<Rightarrow> int \<Rightarrow> 'f govalue list \<Rightarrow> nat
    \<Rightarrow> (string \<times> 'f govalue) list \<Rightarrow> string list \<Rightarrow> panic + (string list \<times> error option)" where
  "deltaCells lib c iv rawold i [] cells = Inr (cells, None)"
| "deltaCells lib c iv rawold i ((fieldname, newcell) # fs) cells =
     (if name (index_c c fieldname) = ''OMIT'' then deltaCells lib c iv rawold (Suc i) fs cells
      else if i < length rawold then
        (let oldcell = rawold ! i in
         if TypeOf oldcell \<noteq> TypeOf newcell then Inr (cells, Some ErrTypeMismatch)
         else
           (case (toFloat lib newcell, toFloat lib oldcell) of
              (Some newfloat, Some oldfloat) \<Rightarrow>
                deltaCells lib c iv rawold (Suc i) fs
                  (cells @ [Sprintf lib (format (index_c c fieldname))
                     (VFloat ''float64'' (fdiv lib (fsub lib newfloat oldfloat) (Seconds lib iv)))])
            | _ \<Rightarrow>
                deltaCells lib c iv rawold (Suc i) fs
                  (cells @ [Sprintf lib (format (index_c c fieldname)) newcell])))
      else Inl IndexOutOfRange)"

text \<open>The loop over the keys of the new map: the old record is projected first, then
  the new one. An error leaves the rows built so far in the named result.\<close>

fun deltaRows :: "'f golib \<Rightarrow> Columns \<Rightarrow> int \<Rightarrow> (string \<times> 'f rvalue) list
    \<Rightarrow> (string \<times> 'f rvalue) list \<Rightarrow> string list list
    \<Rightarrow> panic + (string list list \<times> error option)" where
  "deltaRows lib c iv rold [] rows = Inr (rows, None)"
| "deltaRows lib c iv rold ((k, v) # rnew) rows =
     (case rowFromStruct c (MapIndex rold k) of
        Inl p \<Rightarrow> Inl p
      | Inr (rawold, _) \<Rightarrow>
          (case rowFromStruct c v of
             Inl p \<Rightarrow> Inl p
           | Inr (rawcells, _) \<Rightarrow>
               (case deltaCells lib c iv rawold 0 (zip (fieldNames v) rawcells) [] of
                  Inl p \<Rightarrow> Inl p
                | Inr (cells, Some e) \<Rightarrow> Inr (rows, Some e)
                | Inr (cells, None) \<Rightarrow> deltaRows lib c iv rold rnew (rows @ [cells]))))"

text \<open>\<open>time.Second\<close>, in nanoseconds.\<close>

definition Second :: int where
  "Second = 1000000000"

definition RowsFromMapDelta :: "Samplers \<Rightarrow> 'f golib \<Rightarrow> 'f rvalue \<Rightarrow> 'f rvalue \<Rightarrow> int
    \<Rightarrow> panic + (string list list \<times> error option)" where
  "RowsFromMapDelta s lib newrowdata oldrowdata interval0 =
     (let iv = (if interval0 = 0 then 1 * Second else interval0) in
      case newrowdata of
        Map rnew \<Rightarrow>
          (case oldrowdata of
             Map rold \<Rightarrow>
               (case deltaRows lib (columns s) iv rold rnew [] of
                  Inl p \<Rightarrow> Inl p
                | Inr (rows, Some e) \<Rightarrow> Inr (rows, Some e)
                | Inr (rows, None) \<Rightarrow>
                    (case sortRows (columns s) lib rows (sortcolumn s) of
                       Inl p \<Rightarrow> Inl p
                     | Inr rows' \<Rightarrow> Inr (rows', None)))
           | _ \<Rightarrow> Inr ([], Some ErrNonMap))
      | _ \<Rightarrow> Inr ([], Some ErrNonMap))"

text \<open>\<open>UpdateTableFromMapDelta\<close> drops the error of \<open>RowsFromMapDelta\<close> and calls
  \<open>Dataview().UpdateTable\<close>, which belongs to the transport. The model returns the
  arguments of that call: the column names and the rows.\<close>

definition UpdateTableFromMapDelta :: "Samplers \<Rightarrow> 'f golib \<Rightarrow> 'f rvalue \<Rightarrow> 'f rvalue \<Rightarrow> int
    \<Rightarrow> panic + (string list \<times> string list list)" where
  "UpdateTableFromMapDelta s lib newdata olddata interval0 =
     (case RowsFromMapDelta s lib newdata olddata interval0 of
        Inl p \<Rightarrow> Inl p
      | Inr (table, _) \<Rightarrow> Inr (columnnames s, table))"

section \<open>A small library instance for the examples\<close>

text \<open>The examples are evaluated with float64 values taken as exact rationals, which
  agrees with IEEE arithmetic on the small integers they use. \<open>Sprintf\<close> knows the verb
  \<open>%v\<close> on strings, booleans, integers and integer-valued floats; \<open>ParseFloat\<close> reads an
  optional minus sign and decimal digits, and gives 0 on anything else; the sort of a
  longer slice is the decision tree of insertion sort, as in the library since Go 1.19
  up to 12 elements (no example is that long).\<close>

fun sinkProgram :: "nat \<Rightarrow> sortprog \<Rightarrow> sortprog" where
  "sinkProgram 0 after = after"
| "sinkProgram (Suc j) after = IfLess (Suc j) j (DoSwap (Suc j) j (sinkProgram j after)) after"

fun insertionFrom :: "nat \<Rightarrow> nat \<Rightarrow> sortprog" where
  "insertionFrom i 0 = Stop"
| "insertionFrom i (Suc m) = sinkProgram i (insertionFrom (Suc i) m)"

definition insertionProgram :: "nat \<Rightarrow> sortprog" where
  "insertionProgram n = insertionFrom 1 (n - 1)"

fun showNat :: "nat \<Rightarrow> string" where
  "showNat n =
     (if n < 10 then [''0123456789'' ! n]
      else showNat (n div 10) @ [''0123456789'' ! (n mod 10)])"

declare showNat.simps [simp del]

definition showInt :: "int \<Rightarrow> string" where
  "showInt n = (if n < 0 then CHR ''-'' # showNat (nat (- n)) else showNat (nat n))"

definition exSprintf :: "string \<Rightarrow> rat govalue \<Rightarrow> string" where
  "exSprintf fm v =
     (if fm = ''%v'' then
        (case v of
           VString _ s \<Rightarrow> s
         | VBool _ b \<Rightarrow> (if b then ''true'' else ''false'')
         | VInt _ n \<Rightarrow> showInt n
         | VFloat _ r \<Rightarrow>
             (if r < 0 then
                (if of_int \<lfloor>- r\<rfloor> = - r then CHR ''-'' # showNat (nat \<lfloor>- r\<rfloor>) else fm)
              else (if of_int \<lfloor>r\<rfloor> = r then showNat (nat \<lfloor>r\<rfloor>) else fm)))
      else fm)"

fun digitval :: "char \<Rightarrow> nat option" where
  "digitval ch =
     (if ch = CHR ''0'' then Some 0 else if ch = CHR ''1'' then Some 1
      else if ch = CHR ''2'' then Some 2 else if ch = CHR ''3'' then Some 3
      else if ch = CHR ''4'' then Some 4 else if ch = CHR ''5'' then Some 5
      else if ch = CHR ''6'' then Some 6 else if ch = CHR ''7'' then Some 7
      else if ch = CHR ''8'' then Some 8 else if ch = CHR ''9'' then Some 9
      else None)"

fun parseNat :: "string \<Rightarrow> nat \<Rightarrow> nat option" where
  "parseNat [] acc = Some acc"
| "parseNat (ch # cs) acc =
     (case digitval ch of None \<Rightarrow> None | Some d \<Rightarrow> parseNat cs (10 * acc + d))"

definition parseDec :: "string \<Rightarrow> int option" where
  "parseDec s =
     (case s of
        [] \<Rightarrow> None
      | ch # cs \<Rightarrow>
          (if ch = CHR ''-'' then (if cs = [] then None else map_option (\<lambda>n. - int n) (parseNat cs 0))
           else map_option int (parseNat s 0)))"

definition exLib :: "rat golib" where
  "exLib = \<lparr>
     Sprintf = exSprintf,
     ParseFloat = (\<lambda>s. case parseDec s of None \<Rightarrow> 0 | Some n \<Rightarrow> of_int n),
     IntToFloat = of_int,
     Seconds = (\<lambda>d. of_int d / 1000000000),
     SortProgram = insertionProgram,
     fsub = (\<lambda>a b. a - b),
     fdiv = (\<lambda>a b. a / b),
     feq = (\<lambda>a b. a = b),
     flt = (\<lambda>a b. a < b),
     fge = (\<lambda>a b. a \<ge> b)\<rparr>"

section \<open>Notions the properties are stated with\<close>

text \<open>A field's tag is accepted when the field has no tag or \<open>parseTags\<close> returns a
  descriptor and no error; a field declares a sort mode when its accepted tag sets one.\<close>

definition tagOk :: "string \<times> string option \<Rightarrow> bool" where
  "tagOk f =
     (case snd f of
        None \<Rightarrow> True
      | Some tg \<Rightarrow> (case parseTags (fst f) tg of Inr (d, None) \<Rightarrow> True | _ \<Rightarrow> False))"

definition declaresSort :: "string \<times> string option \<Rightarrow> bool" where
  "declaresSort f =
     (case snd f of
        None \<Rightarrow> False
      | Some tg \<Rightarrow>
          (case parseTags (fst f) tg of Inr (d, None) \<Rightarrow> sort_c d \<noteq> sortNone | _ \<Rightarrow> False))"

text \<open>A field is shown when its descriptor's display name is not \<open>OMIT\<close>;
  \<open>nonOmit\<close> counts the descriptors of a registry that are shown.\<close>

definition shown :: "Columns \<Rightarrow> string \<Rightarrow> bool" where
  "shown c fieldname = (name (index_c c fieldname) \<noteq> ''OMIT'')"

definition nonOmit :: "Columns \<Rightarrow> nat" where
  "nonOmit c = card {k \<in> dom c. shown c k}"

text \<open>The fields of a struct value, and none for any other value. A value is a record of
  a struct type when it is a struct with that type's field names, in order.\<close>

definition fieldsOf :: "'f rvalue \<Rightarrow> (string \<times> 'f govalue) list" where
  "fieldsOf rv = (case rv of Struct fs \<Rightarrow> fs | _ \<Rightarrow> [])"

definition hasShape :: "(string \<times> string option) list \<Rightarrow> 'f rvalue \<Rightarrow> bool" where
  "hasShape fs v = (case v of Struct vs \<Rightarrow> map fst vs = map fst fs | _ \<Rightarrow> False)"

text \<open>A struct type with a renamed sort column, a plain column and an omitted one,
  the registry \<open>ColumnInfo\<close> derives from it, and a sampler set up with that registry.\<close>

definition exFields :: "(string \<times> string option) list" where
  "exFields = [(''Name'', Some ''cpuName,sort=+''), (''User'', None), (''Stamp'', Some ''OMIT'')]"

definition exColumns :: Columns where
  "exColumns =
     [''Name'' \<mapsto> \<lparr>tags = ''cpuName,sort=+'', name = ''cpuName'', number = 0,
                   format = ''%v'', sort_c = sortAsc\<rparr>,
      ''User'' \<mapsto> \<lparr>tags = [], name = ''User'', number = 1, format = ''%v'', sort_c = sortNone\<rparr>,
      ''Stamp'' \<mapsto> \<lparr>tags = ''OMIT'', name = ''OMIT'', number = 2, format = ''%v'',
                    sort_c = sortNone\<rparr>]"

definition exSampler :: Samplers where
  "exSampler = \<lparr>interval = 0, columns = exColumns, columnnames = [''cpuName'', ''User''],
     sortcolumn = ''Name''\<rparr>"

text \<open>Delta mode in the words of the specification. \<open>rateCell\<close> is the field's format
  applied to (current - previous) / interval seconds; \<open>specCell\<close> is that when both values
  convert to a number and the current value rendered as it is otherwise; \<open>specRow\<close> lists
  the cells of the shown fields of one record against the previous record's values.\<close>

definition rateCell :: "'f golib \<Rightarrow> Columns \<Rightarrow> int \<Rightarrow> string \<Rightarrow> 'f \<Rightarrow> 'f \<Rightarrow> string" where
  "rateCell lib c iv fieldname cur prev =
     Sprintf lib (format (index_c c fieldname))
       (VFloat ''float64'' (fdiv lib (fsub lib cur prev) (Seconds lib iv)))"

definition specCell :: "'f golib \<Rightarrow> Columns \<Rightarrow> int \<Rightarrow> string \<Rightarrow> 'f govalue \<Rightarrow> 'f govalue \<Rightarrow> string" where
  "specCell lib c iv fieldname cur prev =
     (case (toFloat lib cur, toFloat lib prev) of
        (Some x, Some y) \<Rightarrow> rateCell lib c iv fieldname x y
      | _ \<Rightarrow> Sprintf lib (format (index_c c fieldname)) cur)"

definition specRow :: "'f golib \<Rightarrow> Columns \<Rightarrow> int \<Rightarrow> (string \<times> 'f govalue) list \<Rightarrow> 'f govalue list
    \<Rightarrow> string list" where
  "specRow lib c iv fs prevs =
     map (\<lambda>((fieldname, cur), prev). specCell lib c iv fieldname cur prev)
       (filter (\<lambda>((fieldname, cur), prev). shown c fieldname) (zip fs prevs))"

text \<open>The types of two records agree when every shown field holds values of one
  type in both; two values are same-shaped records when both are structs with the same
  field names, all of them exported, as the package documentation asks of a record
  type. \<open>oldRow\<close> is the projection of the previous record of a key, \<open>agrees\<close> and
  \<open>deltaRow\<close> are the two notions above for one entry of the current map.\<close>

definition typesAgree :: "Columns \<Rightarrow> (string \<times> 'f govalue) list \<Rightarrow> 'f govalue list \<Rightarrow> bool" where
  "typesAgree c fs prevs =
     list_all (\<lambda>((fieldname, cur), prev). shown c fieldname \<longrightarrow> TypeOf prev = TypeOf cur)
       (zip fs prevs)"

definition sameShaped :: "'f rvalue \<Rightarrow> 'f rvalue \<Rightarrow> bool" where
  "sameShaped v ov =
     (case v of
        Struct fs \<Rightarrow>
          (case ov of
             Struct os \<Rightarrow> map fst os = map fst fs \<and> list_all exported (map fst fs)
           | _ \<Rightarrow> False)
      | _ \<Rightarrow> False)"

definition oldRow :: "(string \<times> 'f rvalue) list \<Rightarrow> string \<Rightarrow> 'f govalue list" where
  "oldRow rold k = map snd (fieldsOf (MapIndex rold k))"

definition agrees :: "Columns \<Rightarrow> (string \<times> 'f rvalue) list \<Rightarrow> string \<times> 'f rvalue \<Rightarrow> bool" where
  "agrees c rold kv = typesAgree c (fieldsOf (snd kv)) (oldRow rold (fst kv))"

definition deltaRow :: "'f golib \<Rightarrow> Columns \<Rightarrow> int \<Rightarrow> (string \<times> 'f rvalue) list
    \<Rightarrow> string \<times> 'f rvalue \<Rightarrow> string list" where
  "deltaRow lib c iv rold kv = specRow lib c iv (fieldsOf (snd kv)) (oldRow rold (fst kv))"

text \<open>A decision tree is in range for a length when every index it names is below the
  length; the sort of a slice of that length is in range when the slice is short or
  the library's tree for it is.\<close>

fun progOk :: "nat \<Rightarrow> sortprog \<Rightarrow> bool" where
  "progOk n Stop = True"
| "progOk n (DoSwap i j p) = (i < n \<and> j < n \<and> progOk n p)"
| "progOk n (IfLess i j pt pf) = (i < n \<and> j < n \<and> progOk n pt \<and> progOk n pf)"

definition sorterOk :: "'f golib \<Rightarrow> nat \<Rightarrow> bool" where
  "sorterOk lib n = (n \<le> 6 \<or> progOk n (SortProgram lib n))"

text \<open>The sampler for a struct with the single field \<open>Count\<close>.\<close>

definition exCounter :: Samplers where
  "exCounter = \<lparr>interval = 0,
     columns = [''Count'' \<mapsto> \<lparr>tags = [], name = ''Count'', number = 0, format = ''%v'',
                              sort_c = sortNone\<rparr>],
     columnnames = [''Count''], sortcolumn = ''Count''\<rparr>"

section \<open>The tag parser on the documented clauses\<close>

text \<open>
  C6. The package documentation gives \<open>sort=[+|-][num]\<close> with both parts optional, and
  says that \<open>sort=\<close> alone sorts ascending. On the clause \<open>sort=\<close> the parser reads
  the byte after the \<open>=\<close>, which does not exist: for every field name the call ends in
  the index-out-of-range panic and no sort mode is produced.
\<close>

theorem parseTags_sort_alone_panics:
  "parseTags fieldname ''sort='' = Inl IndexOutOfRange"
  by (simp add: parseTags_def parseClause_def)

text \<open>
  C7. A second name-only clause is detected by comparing the current display name with
  the field name. When the first name clause repeats the field name, the second one is
  accepted: field \<open>A\<close> with tag \<open>A,B\<close> parses without error to the display name \<open>B\<close>.
\<close>

theorem parseTags_second_name_accepted:
  "parseTags ''A'' ''A,B'' =
     Inr (\<lparr>tags = ''A,B'', name = ''B'', number = 0, format = ''%v'', sort_c = sortNone\<rparr>, None)"
  by (simp add: parseTags_def)

text \<open>The other clauses of the documented grammar parse as documented, and a second
  name clause after a display name that differs from the field name is rejected.\<close>

lemma parseTags_sort_clauses:
  "parseTags f ''sort=+'' = Inr (\<lparr>tags = ''sort=+'', name = f, number = 0, format = ''%v'', sort_c = sortAsc\<rparr>, None)"
  "parseTags f ''sort=-'' = Inr (\<lparr>tags = ''sort=-'', name = f, number = 0, format = ''%v'', sort_c = sortDesc\<rparr>, None)"
  "parseTags f ''sort=num'' = Inr (\<lparr>tags = ''sort=num'', name = f, number = 0, format = ''%v'', sort_c = sortAscNum\<rparr>, None)"
  "parseTags f ''sort=+num'' = Inr (\<lparr>tags = ''sort=+num'', name = f, number = 0, format = ''%v'', sort_c = sortAscNum\<rparr>, None)"
  "parseTags f ''sort=-num'' = Inr (\<lparr>tags = ''sort=-num'', name = f, number = 0, format = ''%v'', sort_c = sortDescNum\<rparr>, None)"
  by (simp_all add: parseTags_def parseClause_def HasSuffix_def)

lemma parseTags_second_name_rejected:
  "parseTags ''A'' ''X,B'' =
     Inr (\<lparr>tags = ''X,B'', name = ''X'', number = 0, format = ''%v'', sort_c = sortNone\<rparr>,
          Some (ErrRedefined ''X''))"
  by (simp add: parseTags_def)

section \<open>The row sorter and omitted columns\<close>

text \<open>
  C1. The sorter indexes each row with the descriptor's \<open>number\<close>, the position of the
  field in the struct, while the rows hold cells for the displayed columns only. With
  the fields \<open>A\<close> (OMIT), \<open>B\<close> (\<open>sort=+\<close>) and \<open>C\<close>, the sort column is \<open>B\<close>, shown
  first, but the rows come out ordered by their second cell, the one shown under \<open>C\<close>:
  the row with \<open>B = 2\<close> precedes the row with \<open>B = 1\<close>.
\<close>

theorem sortRows_reads_shifted_cell:
  "(case ColumnInfo (StructType [(''A'', Some ''OMIT''), (''B'', Some ''sort=+''), (''C'', None)]) of
      Inl p \<Rightarrow> False
    | Inr (c, n, sc, e) \<Rightarrow> n = [''B'', ''C''] \<and> sc = ''B'' \<and> e = None \<and>
        RowsFromMap \<lparr>interval = 0, columns = c, columnnames = n, sortcolumn = sc\<rparr> exLib
          (Map [(''k1'', Struct [(''A'', VInt ''int'' 0), (''B'', VString ''string'' ''2''),
                                 (''C'', VString ''string'' ''1'')]),
                (''k2'', Struct [(''A'', VInt ''int'' 0), (''B'', VString ''string'' ''1''),
                                 (''C'', VString ''string'' ''2'')])])
        = Inr ([[''2'', ''1''], [''1'', ''2'']], None))"
  by (simp add: ColumnInfo_def parseTags_def parseClause_def HasSuffix_def zero_columndetails_def
      RowsFromMap_def rowFromStruct_def fieldNames_def exported_def index_c_def sortRows_def
      SortSlice_def less_rows_def exLib_def exSprintf_def)

text \<open>
  C9. With the fields \<open>A\<close> (OMIT) and \<open>B\<close> (\<open>sort=-num\<close>) every built row has one
  cell, and the sorter reads cell 1 of each: sorting two such rows ends in the
  index-out-of-range panic, whatever the library does.
\<close>

theorem sortRows_panics_behind_omitted_column:
  "(case ColumnInfo (StructType [(''A'', Some ''OMIT''), (''B'', Some ''sort=-num'')]) of
      Inl p \<Rightarrow> False
    | Inr (c, n, sc, e) \<Rightarrow> n = [''B''] \<and> sc = ''B'' \<and> e = None \<and>
        sortRows c lib [[''10''], [''2'']] sc = Inl IndexOutOfRange)"
  by (simp add: ColumnInfo_def parseTags_def parseClause_def HasSuffix_def zero_columndetails_def
      index_c_def sortRows_def SortSlice_def less_rows_def)

section \<open>Delta mode and keys of one snapshot only\<close>

text \<open>
  C2. A key of the current snapshot that the previous snapshot lacks: the projection of
  the missing record is the empty row, its error is dropped, and the first displayed
  field reads \<open>rawold[0]\<close>. The build ends in the index-out-of-range panic, for every
  library and every interval.
\<close>

theorem RowsFromMapDelta_new_key_panics:
  "(case ColumnInfo (StructType [(''Count'', None)]) of
      Inl p \<Rightarrow> False
    | Inr (c, n, sc, e) \<Rightarrow> e = None \<and>
        RowsFromMapDelta \<lparr>interval = 0, columns = c, columnnames = n, sortcolumn = sc\<rparr> lib
          (Map [(''cpu0'', Struct [(''Count'', VInt ''int'' 110)])]) (Map []) iv
        = Inl IndexOutOfRange)"
  by (simp add: ColumnInfo_def zero_columndetails_def RowsFromMapDelta_def fieldNames_def
      exported_def index_c_def MapIndex_def rowFromStruct_def Let_def)

section \<open>The sort column chosen by ColumnInfo\<close>

lemma ColumnInfo_loop_sorting:
  "list_all tagOk fs \<Longrightarrow>
   \<exists>c n. ColumnInfo_loop i fs cols cnames sorting =
     Inr (c, n, (if filter declaresSort fs = [] then sorting
                 else fst (last (filter declaresSort fs))), None)"
proof (induction fs arbitrary: i cols cnames sorting)
  case Nil
  then show ?case by simp
next
  case (Cons f fs)
  obtain fieldname tg where f: "f = (fieldname, tg)" by (cases f)
  from Cons.prems have ok: "tagOk f" and rest: "list_all tagOk fs" by simp_all
  show ?case
  proof (cases tg)
    case None
    have step: "ColumnInfo_loop i (f # fs) cols cnames sorting =
        ColumnInfo_loop (Suc i) fs
          (cols(fieldname \<mapsto> zero_columndetails\<lparr>name := fieldname, number := i, format := ''%v''\<rparr>))
          (if fieldname \<noteq> ''OMIT'' then cnames @ [fieldname] else cnames) sorting"
      by (simp add: f None Let_def)
    have tgt: "filter declaresSort (f # fs) = filter declaresSort fs"
      by (simp add: f None declaresSort_def)
    show ?thesis unfolding step tgt by (rule Cons.IH[OF rest])
  next
    case (Some t)
    with ok f obtain d where d: "parseTags fieldname t = Inr (d, None)"
      by (auto simp: tagOk_def split: sum.splits prod.splits option.splits)
    have ds: "declaresSort f = (sort_c d \<noteq> sortNone)"
      by (simp add: f Some declaresSort_def d)
    have step: "ColumnInfo_loop i (f # fs) cols cnames sorting =
        ColumnInfo_loop (Suc i) fs (cols(fieldname \<mapsto> d\<lparr>number := i\<rparr>))
          (if name d \<noteq> ''OMIT'' then cnames @ [name d] else cnames)
          (if sort_c d \<noteq> sortNone then fieldname else sorting)"
      by (simp add: f Some d Let_def)
    have tgt: "(if filter declaresSort (f # fs) = [] then sorting
                else fst (last (filter declaresSort (f # fs)))) =
               (if filter declaresSort fs = []
                then (if sort_c d \<noteq> sortNone then fieldname else sorting)
                else fst (last (filter declaresSort fs)))"
      using ds by (simp add: f)
    show ?thesis unfolding step tgt by (rule Cons.IH[OF rest])
  qed
qed

text \<open>
  C10. When every tag of a struct type is accepted and more than one field declares a
  sort mode, \<open>ColumnInfo\<close> returns without error, and the sort column it returns is the
  last field, in declaration order, that declares a sort mode.
\<close>

theorem last_sort_wins:
  assumes "list_all tagOk fs" and "2 \<le> length (filter declaresSort fs)"
  shows "\<exists>c n. ColumnInfo (StructType fs) = Inr (c, n, fst (last (filter declaresSort fs)), None)"
proof -
  from assms(2) have ne: "filter declaresSort fs \<noteq> []" by auto
  then obtain f fs' where fs: "fs = f # fs'" by (cases fs) auto
  from ColumnInfo_loop_sorting[OF assms(1), of 0 Map.empty "[]" "fst f"] ne
  show ?thesis by (simp add: ColumnInfo_def fs del: ColumnInfo_loop.simps)
qed

theorem last_sort_wins_witness:
  "\<exists>c n. ColumnInfo (StructType [(''A'', Some ''sort=+''), (''B'', None), (''C'', Some ''Count,sort=-num'')])
     = Inr (c, n, ''C'', None)"
  using last_sort_wins[of "[(''A'', Some ''sort=+''), (''B'', None), (''C'', Some ''Count,sort=-num'')]"]
  by (simp add: tagOk_def declaresSort_def parseTags_def parseClause_def HasSuffix_def)

section \<open>Cells per row\<close>

lemma fieldValues_eq:
  "fieldValues fs row =
     (if list_all exported (map fst fs) then Inr (row @ map snd fs) else Inl UnexportedField)"
  by (induction fs arbitrary: row) auto

lemma rowFromStruct_Struct:
  "rowFromStruct c (Struct fs) =
     (if list_all exported (map fst fs) then Inr (map snd fs, None) else Inl UnexportedField)"
  by (simp add: rowFromStruct_def fieldValues_eq)

lemma rowFromStruct_Inr:
  assumes "rowFromStruct c v = Inr (raw, e)"
  shows "raw = map snd (fieldsOf v)" and "zip (fieldNames v) raw = fieldsOf v"
proof -
  show raw: "raw = map snd (fieldsOf v)"
    using assms
    by (cases v) (auto simp: rowFromStruct_def fieldValues_eq fieldsOf_def split: if_splits)
  show "zip (fieldNames v) raw = fieldsOf v"
    unfolding raw by (cases v) (simp_all add: fieldNames_def fieldsOf_def zip_map_fst_snd)
qed

lemma buildRows_Inr:
  "buildRows lib c vs rows = Inr rows' \<Longrightarrow>
   rows' = rows @ map (\<lambda>v. renderCells lib c (fieldsOf v) []) vs"
proof (induction vs arbitrary: rows)
  case Nil
  then show ?case by simp
next
  case (Cons v vs)
  from Cons.prems obtain raw e where r: "rowFromStruct c v = Inr (raw, e)"
    by (auto split: sum.splits)
  with Cons.prems
  have "buildRows lib c vs (rows @ [renderCells lib c (fieldsOf v) []]) = Inr rows'"
    by (simp add: rowFromStruct_Inr(2)[OF r])
  from Cons.IH[OF this] show ?case by simp
qed

lemma buildRows_exported:
  "list_all (\<lambda>v. list_all exported (fieldNames v)) vs \<Longrightarrow> \<exists>rows'. buildRows lib c vs rows = Inr rows'"
proof (induction vs arbitrary: rows)
  case Nil
  then show ?case by simp
next
  case (Cons v vs)
  from Cons.prems have "list_all exported (fieldNames v)" by simp
  then obtain raw e where r: "rowFromStruct c v = Inr (raw, e)"
    by (cases v) (auto simp: rowFromStruct_def fieldValues_eq fieldNames_def)
  from Cons.prems have "list_all (\<lambda>v. list_all exported (fieldNames v)) vs" by simp
  from Cons.IH[OF this] r show ?case by simp
qed

lemma length_renderCells:
  "length (renderCells lib c fs cells) = length cells + length (filter (shown c) (map fst fs))"
  by (induction fs arbitrary: cells) (auto simp: shown_def)

lemma length_deltaCells:
  "deltaCells lib c iv ro i fs cells = Inr (cells', None) \<Longrightarrow>
   length cells' = length cells + length (filter (shown c) (map fst fs))"
proof (induction fs arbitrary: i cells)
  case Nil
  then show ?case by simp
next
  case (Cons f fs)
  obtain fieldname newcell where f: "f = (fieldname, newcell)" by (cases f)
  show ?case
  proof (cases "shown c fieldname")
    case False
    with Cons.prems have "deltaCells lib c iv ro (Suc i) fs cells = Inr (cells', None)"
      by (simp add: f shown_def)
    from Cons.IH[OF this] False show ?thesis by (simp add: f)
  next
    case True
    with Cons.prems obtain cell where
      "deltaCells lib c iv ro (Suc i) fs (cells @ [cell]) = Inr (cells', None)"
      by (auto simp: f shown_def Let_def split: if_splits option.splits)
    from Cons.IH[OF this] True show ?thesis by (simp add: f)
  qed
qed

lemma deltaRows_lengths:
  "deltaRows lib c iv rold rnew rows = Inr (rows', e) \<Longrightarrow>
   list_all (\<lambda>r. length r = N) rows \<Longrightarrow>
   list_all (\<lambda>kv. length (filter (shown c) (map fst (fieldsOf (snd kv)))) = N) rnew \<Longrightarrow>
   list_all (\<lambda>r. length r = N) rows'"
proof (induction rnew arbitrary: rows)
  case Nil
  then show ?case by simp
next
  case (Cons kv rnew)
  obtain k v where kv: "kv = (k, v)" by (cases kv)
  from Cons.prems(1) obtain rawold eo where ro: "rowFromStruct c (MapIndex rold k) = Inr (rawold, eo)"
    by (auto simp: kv split: sum.splits)
  from Cons.prems(1) ro obtain raw en where rn: "rowFromStruct c v = Inr (raw, en)"
    by (auto simp: kv split: sum.splits)
  note z = rowFromStruct_Inr(2)[OF rn]
  let ?dc = "deltaCells lib c iv rawold 0 (fieldsOf v) []"
  show ?case
  proof (cases ?dc)
    case (Inl p)
    with Cons.prems(1) ro rn z show ?thesis by (simp add: kv)
  next
    case (Inr r)
    obtain cells err where r: "r = (cells, err)" by (cases r)
    show ?thesis
    proof (cases err)
      case (Some e')
      with Cons.prems(1,2) Inr r ro rn z show ?thesis by (simp add: kv)
    next
      case None
      with Cons.prems(1) Inr r ro rn z
      have run: "deltaRows lib c iv rold rnew (rows @ [cells]) = Inr (rows', e)"
        by (simp add: kv)
      from Inr r None have "length cells = length (filter (shown c) (map fst (fieldsOf v)))"
        using length_deltaCells[of lib c iv rawold 0 "fieldsOf v" "[]" cells] by simp
      with Cons.prems(2,3) have "list_all (\<lambda>r. length r = N) (rows @ [cells])"
        by (simp add: kv)
      from Cons.IH[OF run this] Cons.prems(3) show ?thesis by simp
    qed
  qed
qed

lemma mset_runprog: "runprog prog lessf xs = Inr ys \<Longrightarrow> mset ys = mset xs"
proof (induction prog arbitrary: xs)
  case Stop
  then show ?case by simp
next
  case (DoSwap i j prog)
  from DoSwap.prems have ij: "i < length xs" "j < length xs"
    and run: "runprog prog lessf (xs[i := xs ! j, j := xs ! i]) = Inr ys"
    by (simp_all split: if_splits)
  from DoSwap.IH[OF run] ij show ?case by (simp add: mset_swap)
next
  case (IfLess i j pt pf)
  then show ?case by (auto split: if_splits sum.splits bool.splits)
qed

lemma mset_sink: "sink lessf x ys = Inr zs \<Longrightarrow> mset zs = add_mset x (mset ys)"
proof (induction ys arbitrary: zs)
  case Nil
  then show ?case by auto
next
  case (Cons y ys)
  then show ?case
    by (auto split: sum.splits bool.splits)
qed

lemma mset_insertion:
  "insertion lessf left xs = Inr r \<Longrightarrow> mset r = mset left + mset xs"
proof (induction xs arbitrary: left)
  case Nil
  then show ?case by auto
next
  case (Cons x xs)
  then show ?case
    by (auto split: sum.splits dest!: mset_sink)
qed

lemma mset_sortRows: "sortRows c lib rows sc = Inr rows' \<Longrightarrow> mset rows' = mset rows"
  by (auto simp: sortRows_def SortSlice_def Let_def split: if_splits
      dest: mset_insertion mset_runprog)

lemma ColumnInfo_loop_registry:
  "ColumnInfo_loop i fs cols cnames sorting = Inr (c, n, sc, None) \<Longrightarrow> distinct (map fst fs) \<Longrightarrow>
   (\<forall>k. k \<notin> fst ` set fs \<longrightarrow> c k = cols k) \<and> dom c = dom cols \<union> fst ` set fs \<and>
   n = cnames @ map (\<lambda>f. name (index_c c f)) (filter (shown c) (map fst fs))"
proof (induction fs arbitrary: i cols cnames sorting)
  case Nil
  then show ?case by simp
next
  case (Cons f fs)
  obtain fieldname tg where f: "f = (fieldname, tg)" by (cases f)
  from Cons.prems(2) have dis: "distinct (map fst fs)" and notin: "fieldname \<notin> fst ` set fs"
    by (simp_all add: f)
  obtain d where
    run: "ColumnInfo_loop (Suc i) fs (cols(fieldname \<mapsto> d))
            (if name d \<noteq> ''OMIT'' then cnames @ [name d] else cnames)
            (if tg \<noteq> None \<and> sort_c d \<noteq> sortNone then fieldname else sorting) = Inr (c, n, sc, None)"
  proof (cases tg)
    case None
    with Cons.prems(1) show ?thesis
      by (intro that[of "zero_columndetails\<lparr>name := fieldname, number := i, format := ''%v''\<rparr>"])
         (simp add: f Let_def)
  next
    case (Some t)
    with Cons.prems(1) obtain d0 where "parseTags fieldname t = Inr (d0, None)"
      by (auto simp: f split: sum.splits prod.splits option.splits)
    with Some Cons.prems(1) show ?thesis
      by (intro that[of "d0\<lparr>number := i\<rparr>"]) (simp add: f Let_def)
  qed
  from Cons.IH[OF run dis]
  have same: "\<forall>k. k \<notin> fst ` set fs \<longrightarrow> c k = (cols(fieldname \<mapsto> d)) k"
    and dom: "dom c = dom (cols(fieldname \<mapsto> d)) \<union> fst ` set fs"
    and names: "n = (if name d \<noteq> ''OMIT'' then cnames @ [name d] else cnames) @
        map (\<lambda>f. name (index_c c f)) (filter (shown c) (map fst fs))"
    by blast+
  from same notin have cf: "c fieldname = Some d" by simp
  then have sh: "shown c fieldname = (name d \<noteq> ''OMIT'')" and nm: "name (index_c c fieldname) = name d"
    by (simp_all add: shown_def index_c_def)
  have 1: "\<forall>k. k \<notin> fst ` set (f # fs) \<longrightarrow> c k = cols k"
    using same by (simp add: f)
  have 2: "dom c = dom cols \<union> fst ` set (f # fs)"
    using dom by (auto simp: f)
  have 3: "n = cnames @ map (\<lambda>f. name (index_c c f)) (filter (shown c) (map fst (f # fs)))"
    using names sh nm by (simp add: f)
  from 1 2 3 show ?case by blast
qed

lemma ColumnInfo_registry:
  assumes "ColumnInfo (StructType fs) = Inr (c, n, sc, None)" and "distinct (map fst fs)"
  shows "dom c = fst ` set fs" and "n = map (\<lambda>f. name (index_c c f)) (filter (shown c) (map fst fs))"
proof -
  from assms(1) obtain f fs' where fs: "fs = f # fs'"
    by (cases fs) (auto simp: ColumnInfo_def)
  with assms(1) have "ColumnInfo_loop 0 fs Map.empty [] (fst f) = Inr (c, n, sc, None)"
    by (simp add: ColumnInfo_def del: ColumnInfo_loop.simps)
  from ColumnInfo_loop_registry[OF this assms(2)]
  show "dom c = fst ` set fs" and "n = map (\<lambda>f. name (index_c c f)) (filter (shown c) (map fst fs))"
    by simp_all
qed

lemma nonOmit_count:
  assumes "dom c = set xs" and "distinct xs"
  shows "nonOmit c = length (filter (shown c) xs)"
proof -
  have "{k \<in> dom c. shown c k} = set (filter (shown c) xs)"
    using assms(1) by auto
  moreover have "distinct (filter (shown c) xs)" using assms(2) by simp
  ultimately show ?thesis
    using distinct_card[of "filter (shown c) xs"] by (simp only: nonOmit_def)
qed


lemma shape_count:
  assumes "hasShape fs v" and "dom c = fst ` set fs" and "distinct (map fst fs)"
  shows "length (filter (shown c) (map fst (fieldsOf v))) = nonOmit c"
proof -
  from assms(1) have "map fst (fieldsOf v) = map fst fs"
    by (auto simp: hasShape_def fieldsOf_def split: rvalue.splits)
  with nonOmit_count[of c "map fst fs"] assms(2,3) show ?thesis by simp
qed

text \<open>
  C5. For a struct type with distinct field names and the registry \<open>ColumnInfo\<close> derives
  from it: the list of column names has as many entries as the registry has non-OMIT
  descriptors; every row \<open>RowsFromSlice\<close> builds from records of the type has that many
  cells, one row per record, and it does build them when the fields are exported; and
  so has every row of every table that \<open>RowsFromMap\<close> or \<open>RowsFromMapDelta\<close> returns
  for a map of such records.
\<close>

theorem cells_per_row:
  assumes "distinct (map fst fs)"
    and "ColumnInfo (StructType fs) = Inr (c, n, sc, None)"
    and "columns s = c"
  shows "length n = nonOmit c \<and>
    (list_all (hasShape fs) vs \<longrightarrow>
       (\<forall>rows e. RowsFromSlice s lib (Slice vs) = Inr (rows, e) \<longrightarrow>
          length rows = length vs \<and> list_all (\<lambda>row. length row = nonOmit c) rows)) \<and>
    (list_all (hasShape fs) vs \<and> list_all exported (map fst fs) \<longrightarrow>
       (\<exists>rows. RowsFromSlice s lib (Slice vs) = Inr (rows, None))) \<and>
    (list_all (\<lambda>kv. hasShape fs (snd kv)) es \<longrightarrow>
       (\<forall>rows e. RowsFromMap s lib (Map es) = Inr (rows, e) \<longrightarrow>
          list_all (\<lambda>row. length row = nonOmit c) rows)) \<and>
    (list_all (\<lambda>kv. hasShape fs (snd kv)) es \<longrightarrow>
       (\<forall>rows e. RowsFromMapDelta s lib (Map es) old iv = Inr (rows, e) \<longrightarrow>
          list_all (\<lambda>row. length row = nonOmit c) rows))"
proof -
  note reg = ColumnInfo_registry[OF assms(2,1)]
  have cnt: "\<And>v. hasShape fs v \<Longrightarrow> length (filter (shown c) (map fst (fieldsOf v))) = nonOmit c"
    using shape_count reg(1) assms(1) by blast
  have names: "length n = nonOmit c"
    using reg(2) nonOmit_count[of c "map fst fs"] reg(1) assms(1) by simp
  have rc: "length (renderCells lib c (fieldsOf v) []) = nonOmit c" if "hasShape fs v" for v
    using cnt[OF that] by (simp add: length_renderCells)
  have slice: "length rows = length vs \<and> list_all (\<lambda>row. length row = nonOmit c) rows"
    if sh: "list_all (hasShape fs) vs"
      and run: "RowsFromSlice s lib (Slice vs) = Inr (rows, e)" for rows e
  proof -
    from run have "buildRows lib c vs [] = Inr rows"
      by (auto simp: RowsFromSlice_def assms(3) split: sum.splits)
    from buildRows_Inr[OF this] have "rows = map (\<lambda>v. renderCells lib c (fieldsOf v) []) vs"
      by simp
    with sh rc show ?thesis by (simp add: list_all_iff)
  qed
  have total: "\<exists>rows. RowsFromSlice s lib (Slice vs) = Inr (rows, None)"
    if sh: "list_all (hasShape fs) vs" and ex: "list_all exported (map fst fs)"
  proof -
    have "list_all (\<lambda>v. list_all exported (fieldNames v)) vs"
      unfolding list_all_iff
    proof
      fix v assume "v \<in> set vs"
      with sh have "hasShape fs v" by (simp add: list_all_iff)
      then have "fieldNames v = map fst fs"
        by (auto simp: hasShape_def fieldNames_def split: rvalue.splits)
      with ex show "\<forall>x\<in>set (fieldNames v). exported x" by (simp add: list_all_iff)
    qed
    then have "\<exists>rows'. buildRows lib c vs [] = Inr rows'" by (rule buildRows_exported)
    then show ?thesis by (auto simp: RowsFromSlice_def assms(3))
  qed
  have mapm: "list_all (\<lambda>row. length row = nonOmit c) rows"
    if sh: "list_all (\<lambda>kv. hasShape fs (snd kv)) es"
      and run: "RowsFromMap s lib (Map es) = Inr (rows, e)" for rows e
  proof -
    from run obtain built where b: "buildRows lib c (map snd es) [] = Inr built"
      and srt: "sortRows c lib built (sortcolumn s) = Inr rows"
      by (auto simp: RowsFromMap_def assms(3) split: sum.splits)
    from buildRows_Inr[OF b]
    have built: "built = map (\<lambda>v. renderCells lib c (fieldsOf v) []) (map snd es)" by simp
    from srt have "set rows = set built" using mset_sortRows mset_eq_setD by blast
    moreover have "list_all (\<lambda>row. length row = nonOmit c) built"
      unfolding built using sh rc by (auto simp: list_all_iff)
    ultimately show ?thesis by (simp add: list_all_iff)
  qed
  have delta: "list_all (\<lambda>row. length row = nonOmit c) rows"
    if sh: "list_all (\<lambda>kv. hasShape fs (snd kv)) es"
      and run: "RowsFromMapDelta s lib (Map es) old iv = Inr (rows, e)" for rows e
  proof (cases old)
    case (Map rold)
    let ?iv = "if iv = 0 then 1 * Second else iv"
    have shl:
      "list_all (\<lambda>kv. length (filter (shown c) (map fst (fieldsOf (snd kv)))) = nonOmit c) es"
      unfolding list_all_iff
    proof
      fix kv assume "kv \<in> set es"
      with sh have "hasShape fs (snd kv)" by (simp add: list_all_iff)
      then show "length (filter (shown c) (map fst (fieldsOf (snd kv)))) = nonOmit c" by (rule cnt)
    qed
    show ?thesis
    proof (cases "deltaRows lib c ?iv rold es []")
      case (Inl p)
      with run Map show ?thesis by (simp add: RowsFromMapDelta_def assms(3))
    next
      case (Inr r)
      obtain built err where r: "r = (built, err)" by (cases r)
      from deltaRows_lengths[OF Inr[unfolded r] _ shl]
      have bl: "list_all (\<lambda>row. length row = nonOmit c) built" by simp
      show ?thesis
      proof (cases err)
        case (Some e')
        with run Map Inr r bl show ?thesis by (simp add: RowsFromMapDelta_def assms(3))
      next
        case None
        with run Map Inr r have "sortRows c lib built (sortcolumn s) = Inr rows"
          by (auto simp: RowsFromMapDelta_def assms(3) split: sum.splits)
        then have "set rows = set built" using mset_sortRows mset_eq_setD by blast
        with bl show ?thesis by (simp add: list_all_iff)
      qed
    qed
  qed (use run in \<open>simp_all add: RowsFromMapDelta_def\<close>)
  from names slice total mapm delta show ?thesis by blast
qed

lemma exColumns_derived:
  "ColumnInfo (StructType exFields) = Inr (exColumns, [''cpuName'', ''User''], ''Name'', None)"
  by (simp add: ColumnInfo_def exFields_def exColumns_def parseTags_def parseClause_def
      HasSuffix_def zero_columndetails_def numeral_2_eq_2)

theorem cells_per_row_witness:
  "nonOmit exColumns = 2 \<and>
   RowsFromMap exSampler exLib
     (Map [(''k1'', Struct [(''Name'', VString ''string'' ''cpu1''), (''User'', VInt ''uint64'' 7),
                            (''Stamp'', VInt ''uint64'' 99)]),
           (''k0'', Struct [(''Name'', VString ''string'' ''cpu0''), (''User'', VInt ''uint64'' 5),
                            (''Stamp'', VInt ''uint64'' 98)])])
     = Inr ([[''cpu0'', ''5''], [''cpu1'', ''7'']], None)"
proof -
  have "distinct (map fst exFields)" by (simp add: exFields_def)
  moreover have "columns exSampler = exColumns" by (simp add: exSampler_def)
  ultimately have "length [''cpuName'', ''User''] = nonOmit exColumns"
    using cells_per_row[OF _ exColumns_derived] by blast
  then have "nonOmit exColumns = 2" by simp
  moreover have "RowsFromMap exSampler exLib
     (Map [(''k1'', Struct [(''Name'', VString ''string'' ''cpu1''), (''User'', VInt ''uint64'' 7),
                            (''Stamp'', VInt ''uint64'' 99)]),
           (''k0'', Struct [(''Name'', VString ''string'' ''cpu0''), (''User'', VInt ''uint64'' 5),
                            (''Stamp'', VInt ''uint64'' 98)])])
     = Inr ([[''cpu0'', ''5''], [''cpu1'', ''7'']], None)"
    by (simp add: exSampler_def exColumns_def RowsFromMap_def rowFromStruct_def fieldNames_def
        exported_def index_c_def sortRows_def SortSlice_def less_rows_def exLib_def
        exSprintf_def showInt_def showNat.simps)
  ultimately show ?thesis by simp
qed

section \<open>The row sorter within range\<close>

text \<open>When every row has a cell at the index the sorter reads, and the library's
  decision tree names no index outside the slice, the sorter returns, and what it
  returns is a reordering of the rows. In the numeric modes a cell that
  \<open>ParseFloat\<close> rejects counts as 0: descending numeric order leaves
  \<open>10, 2, x\<close> as it is.\<close>

lemma sink_total:
  "\<forall>y\<in>set ys. \<exists>b. lessf x y = Inr b \<Longrightarrow> \<exists>zs. sink lessf x ys = Inr zs"
proof (induction ys)
  case Nil
  then show ?case by simp
next
  case (Cons y ys)
  then obtain b zs where "lessf x y = Inr b" and "sink lessf x ys = Inr zs" by auto
  then show ?case by (cases b) simp_all
qed

lemma insertion_total:
  "\<forall>x\<in>set left \<union> set xs. \<forall>y\<in>set left \<union> set xs. \<exists>b. lessf x y = Inr b \<Longrightarrow>
   \<exists>r. insertion lessf left xs = Inr r"
proof (induction xs arbitrary: left)
  case Nil
  then show ?case by simp
next
  case (Cons x xs)
  from Cons.prems have "\<forall>y\<in>set left. \<exists>b. lessf x y = Inr b" by simp
  then have "\<exists>zs. sink lessf x left = Inr zs" by (rule sink_total)
  then obtain left' where s: "sink lessf x left = Inr left'" by blast
  from mset_sink[OF s] have "set left' = insert x (set left)"
    by (metis mset_eq_setD set_mset_add_mset_insert set_mset_mset)
  with Cons.prems have "\<forall>a\<in>set left' \<union> set xs. \<forall>y\<in>set left' \<union> set xs. \<exists>b. lessf a y = Inr b"
    by auto
  from Cons.IH[OF this] s show ?case by simp
qed

lemma runprog_total:
  "progOk (length xs) prog \<Longrightarrow> \<forall>x\<in>set xs. \<forall>y\<in>set xs. \<exists>b. lessf x y = Inr b \<Longrightarrow>
   \<exists>ys. runprog prog lessf xs = Inr ys"
proof (induction prog arbitrary: xs)
  case Stop
  then show ?case by simp
next
  case (DoSwap i j prog)
  let ?xs = "xs[i := xs ! j, j := xs ! i]"
  from DoSwap.prems(1) have ij: "i < length xs" "j < length xs" and ok: "progOk (length ?xs) prog"
    by simp_all
  from ij have "mset ?xs = mset xs" by (simp add: mset_swap)
  then have "set ?xs = set xs" by (rule mset_eq_setD)
  with DoSwap.prems(2) have "\<forall>x\<in>set ?xs. \<forall>y\<in>set ?xs. \<exists>b. lessf x y = Inr b" by simp
  from DoSwap.IH[OF ok this] ij show ?case by simp
next
  case (IfLess i j pt pf)
  from IfLess.prems(1) have ij: "i < length xs" "j < length xs"
    and okt: "progOk (length xs) pt" and okf: "progOk (length xs) pf"
    by simp_all
  from ij IfLess.prems(2) obtain b where b: "lessf (xs ! i) (xs ! j) = Inr b"
    by (meson nth_mem)
  from IfLess.IH(1)[OF okt IfLess.prems(2)] IfLess.IH(2)[OF okf IfLess.prems(2)] ij b
  show ?case by (cases b) simp_all
qed

lemma sortRows_in_range:
  assumes "\<forall>row\<in>set rows. number (index_c c sortcol) < length row"
    and "sorterOk lib (length rows)"
  shows "\<exists>rows'. sortRows c lib rows sortcol = Inr rows' \<and> mset rows' = mset rows"
proof -
  let ?lessf = "less_rows lib (sort_c (index_c c sortcol)) (number (index_c c sortcol))"
  have tot: "\<forall>x\<in>set rows. \<forall>y\<in>set rows. \<exists>b. ?lessf x y = Inr b"
    using assms(1) by (auto simp: less_rows_def Let_def split: sortType.splits)
  have "\<exists>r. SortSlice lib ?lessf rows = Inr r"
  proof (cases "length rows \<le> 6")
    case True
    from tot have "\<forall>x\<in>set [] \<union> set rows. \<forall>y\<in>set [] \<union> set rows. \<exists>b. ?lessf x y = Inr b"
      by simp
    then have "\<exists>r. insertion ?lessf [] rows = Inr r" by (rule insertion_total)
    with True show ?thesis by (simp add: SortSlice_def)
  next
    case False
    with assms(2) have "progOk (length rows) (SortProgram lib (length rows))"
      by (simp add: sorterOk_def)
    then have "\<exists>ys. runprog (SortProgram lib (length rows)) ?lessf rows = Inr ys"
      using tot by (rule runprog_total)
    with False show ?thesis by (simp add: SortSlice_def)
  qed
  then obtain rows' where "sortRows c lib rows sortcol = Inr rows'"
    by (auto simp: sortRows_def Let_def)
  with mset_sortRows[OF this] show ?thesis by blast
qed

lemma sortRows_descending_numeric_example:
  "sortRows [''v'' \<mapsto> \<lparr>tags = ''sort=-num'', name = ''v'', number = 0, format = ''%v'',
                          sort_c = sortDescNum\<rparr>] exLib [[''10''], [''2''], [''x'']] ''v''
   = Inr [[''10''], [''2''], [''x'']]"
  by (simp add: sortRows_def SortSlice_def less_rows_def index_c_def exLib_def parseDec_def)

section \<open>Delta mode against its specification\<close>

lemma sameShaped_rows:
  assumes "sameShaped v (MapIndex rold k)"
  shows "rowFromStruct c (MapIndex rold k) = Inr (oldRow rold k, None)"
    and "rowFromStruct c v = Inr (map snd (fieldsOf v), None)"
    and "zip (fieldNames v) (map snd (fieldsOf v)) = fieldsOf v"
    and "length (oldRow rold k) = length (fieldsOf v)"
proof -
  from assms obtain fs os where v: "v = Struct fs" and o: "MapIndex rold k = Struct os"
    and names: "map fst os = map fst fs" and ex: "list_all exported (map fst fs)"
    by (auto simp: sameShaped_def split: rvalue.splits)
  show "rowFromStruct c (MapIndex rold k) = Inr (oldRow rold k, None)"
    using ex names by (simp add: o rowFromStruct_Struct oldRow_def fieldsOf_def)
  show "rowFromStruct c v = Inr (map snd (fieldsOf v), None)"
    using ex by (simp add: v rowFromStruct_Struct fieldsOf_def)
  show "zip (fieldNames v) (map snd (fieldsOf v)) = fieldsOf v"
    by (simp add: v fieldNames_def fieldsOf_def zip_map_fst_snd)
  from names have "length os = length fs" by (rule map_eq_imp_length_eq)
  then show "length (oldRow rold k) = length (fieldsOf v)"
    by (simp add: v o oldRow_def fieldsOf_def)
qed

lemma deltaCells_agree:
  "i + length fs \<le> length ro \<Longrightarrow> typesAgree c fs (drop i ro) \<Longrightarrow>
   deltaCells lib c iv ro i fs cells = Inr (cells @ specRow lib c iv fs (drop i ro), None)"
proof (induction fs arbitrary: i cells)
  case Nil
  then show ?case by (simp add: specRow_def)
next
  case (Cons f fs)
  obtain fieldname newcell where f: "f = (fieldname, newcell)" by (cases f)
  from Cons.prems(1) have i: "i < length ro" and len: "Suc i + length fs \<le> length ro" by simp_all
  from i have dr: "drop i ro = ro ! i # drop (Suc i) ro" by (simp add: Cons_nth_drop_Suc)
  from Cons.prems(2) have ag: "typesAgree c fs (drop (Suc i) ro)"
    and ty: "shown c fieldname \<longrightarrow> TypeOf (ro ! i) = TypeOf newcell"
    by (simp_all add: typesAgree_def dr f)
  note IH = Cons.IH[OF len ag]
  show ?case
  proof (cases "shown c fieldname")
    case False
    then show ?thesis using IH by (simp add: f dr specRow_def shown_def)
  next
    case True
    with ty have "TypeOf (ro ! i) = TypeOf newcell" by simp
    with True i show ?thesis using IH
      by (simp add: f dr specRow_def specCell_def rateCell_def shown_def Let_def
          split: option.splits)
  qed
qed

lemma deltaCells_disagree:
  "i + length fs \<le> length ro \<Longrightarrow> \<not> typesAgree c fs (drop i ro) \<Longrightarrow>
   \<exists>cells'. deltaCells lib c iv ro i fs cells = Inr (cells', Some ErrTypeMismatch)"
proof (induction fs arbitrary: i cells)
  case Nil
  then show ?case by (simp add: typesAgree_def)
next
  case (Cons f fs)
  obtain fieldname newcell where f: "f = (fieldname, newcell)" by (cases f)
  from Cons.prems(1) have i: "i < length ro" and len: "Suc i + length fs \<le> length ro" by simp_all
  from i have dr: "drop i ro = ro ! i # drop (Suc i) ro" by (simp add: Cons_nth_drop_Suc)
  show ?case
  proof (cases "shown c fieldname \<and> TypeOf (ro ! i) \<noteq> TypeOf newcell")
    case True
    with i show ?thesis by (simp add: f shown_def Let_def)
  next
    case False
    with Cons.prems(2) have "\<not> typesAgree c fs (drop (Suc i) ro)"
      by (auto simp: typesAgree_def dr f)
    note IH = Cons.IH[OF len this]
    from False i show ?thesis using IH
      by (auto simp: f shown_def Let_def split: option.splits)
  qed
qed

text \<open>One step of the loop over the keys, for a key with a same-shaped previous record.\<close>

lemma deltaRows_step:
  assumes "sameShaped v (MapIndex rold k)"
  shows "deltaRows lib c iv rold ((k, v) # rnew) rows =
     (if agrees c rold (k, v)
      then deltaRows lib c iv rold rnew (rows @ [deltaRow lib c iv rold (k, v)])
      else Inr (rows, Some ErrTypeMismatch))"
proof -
  note sr = sameShaped_rows[OF assms]
  have len: "0 + length (fieldsOf v) \<le> length (oldRow rold k)" using sr(4) by simp
  have unfold: "deltaRows lib c iv rold ((k, v) # rnew) rows =
      (case deltaCells lib c iv (oldRow rold k) 0 (fieldsOf v) [] of
         Inl p \<Rightarrow> Inl p
       | Inr (cells, Some e) \<Rightarrow> Inr (rows, Some e)
       | Inr (cells, None) \<Rightarrow> deltaRows lib c iv rold rnew (rows @ [cells]))"
    by (simp add: sr(1,2,3))
  show ?thesis
  proof (cases "agrees c rold (k, v)")
    case True
    then have "typesAgree c (fieldsOf v) (drop 0 (oldRow rold k))" by (simp add: agrees_def)
    from deltaCells_agree[OF len this, of lib iv "[]"]
    have "deltaCells lib c iv (oldRow rold k) 0 (fieldsOf v) [] =
        Inr (deltaRow lib c iv rold (k, v), None)"
      by (simp add: deltaRow_def)
    with True show ?thesis unfolding unfold by simp
  next
    case False
    then have "\<not> typesAgree c (fieldsOf v) (drop 0 (oldRow rold k))" by (simp add: agrees_def)
    from deltaCells_disagree[OF len this, of lib iv "[]"]
    obtain cells' where
      "deltaCells lib c iv (oldRow rold k) 0 (fieldsOf v) [] = Inr (cells', Some ErrTypeMismatch)"
      by blast
    with False show ?thesis unfolding unfold by simp
  qed
qed

lemma deltaRows_spec:
  "list_all (\<lambda>kv. sameShaped (snd kv) (MapIndex rold (fst kv))) rnew \<Longrightarrow>
   deltaRows lib c iv rold rnew rows =
     Inr (rows @ map (deltaRow lib c iv rold) (takeWhile (agrees c rold) rnew),
          if list_all (agrees c rold) rnew then None else Some ErrTypeMismatch)"
proof (induction rnew arbitrary: rows)
  case Nil
  then show ?case by simp
next
  case (Cons kv rnew)
  obtain k v where kv: "kv = (k, v)" by (cases kv)
  from Cons.prems have sh: "sameShaped v (MapIndex rold k)"
    and rest: "list_all (\<lambda>kv. sameShaped (snd kv) (MapIndex rold (fst kv))) rnew"
    by (simp_all add: kv)
  show ?case
    unfolding kv deltaRows_step[OF sh]
    using Cons.IH[OF rest, of "rows @ [deltaRow lib c iv rold (k, v)]"]
    by simp
qed

text \<open>The loop stops at the first key whose types disagree: what follows that key is
  never looked at.\<close>

lemma deltaRows_stops:
  assumes "list_all (\<lambda>kv. sameShaped (snd kv) (MapIndex rold (fst kv))) pre"
    and "sameShaped v (MapIndex rold k)" and "\<not> agrees c rold (k, v)"
  shows "deltaRows lib c iv rold (pre @ (k, v) # post) rows =
     Inr (rows @ map (deltaRow lib c iv rold) (takeWhile (agrees c rold) pre),
          Some ErrTypeMismatch)"
  using assms(1)
proof (induction pre arbitrary: rows)
  case Nil
  show ?case using deltaRows_step[OF assms(2), of lib c iv post rows] assms(3) by simp
next
  case (Cons kv pre)
  obtain k' v' where kv: "kv = (k', v')" by (cases kv)
  from Cons.prems have sh: "sameShaped v' (MapIndex rold k')"
    and rest: "list_all (\<lambda>kv. sameShaped (snd kv) (MapIndex rold (fst kv))) pre"
    by (simp_all add: kv)
  have "deltaRows lib c iv rold ((k', v') # (pre @ (k, v) # post)) rows =
     Inr (rows @ map (deltaRow lib c iv rold) (takeWhile (agrees c rold) ((k', v') # pre)),
          Some ErrTypeMismatch)"
    unfolding deltaRows_step[OF sh]
    using Cons.IH[OF rest, of "rows @ [deltaRow lib c iv rold (k', v')]"]
    by simp
  then show ?case by (simp add: kv)
qed

lemma exCounter_derived:
  "ColumnInfo (StructType [(''Count'', None)]) =
     Inr (columns exCounter, columnnames exCounter, sortcolumn exCounter, None)"
  by (simp add: ColumnInfo_def exCounter_def zero_columndetails_def)

lemma RowsFromMapDelta_run:
  "RowsFromMapDelta s lib (Map rnew) (Map rold) iv =
      (case deltaRows lib (columns s) (if iv = 0 then Second else iv) rold rnew [] of
         Inl p \<Rightarrow> Inl p
       | Inr (rows, Some e) \<Rightarrow> Inr (rows, Some e)
       | Inr (rows, None) \<Rightarrow>
           (case sortRows (columns s) lib rows (sortcolumn s) of
              Inl p \<Rightarrow> Inl p
            | Inr rows' \<Rightarrow> Inr (rows', None)))"
  by (simp add: RowsFromMapDelta_def Let_def)

text \<open>
  C4 (amended). For a map of current records whose keys all have a same-shaped previous
  record with values of the same types in the shown fields, the delta loop builds
  exactly the rows of the specification, one per key in iteration order: for each
  shown field whose two values convert to numbers, the field's format applied to
  (current - previous) / interval seconds, and the current value rendered otherwise.
  The divisor is the interval as given, negative ones included; only the interval 0 is
  replaced, by exactly one second. \<open>RowsFromMapDelta\<close> hands these rows to the sorter;
  when every row has a cell at the index the sorter reads, and the library's sort
  stays inside the slice, it returns them all, reordered, and no error.
\<close>

theorem delta_cells_rate:
  assumes "columns s = c"
    and "list_all (\<lambda>kv. sameShaped (snd kv) (MapIndex rold (fst kv))) rnew"
    and "list_all (agrees c rold) rnew"
  shows "deltaRows lib c (if iv = 0 then Second else iv) rold rnew [] =
      Inr (map (deltaRow lib c (if iv = 0 then Second else iv) rold) rnew, None)
    \<and> RowsFromMapDelta s lib (Map rnew) (Map rold) iv =
       (case sortRows c lib (map (deltaRow lib c (if iv = 0 then Second else iv) rold) rnew)
               (sortcolumn s) of
          Inl p \<Rightarrow> Inl p
        | Inr rows \<Rightarrow> Inr (rows, None))
    \<and> (list_all (\<lambda>kv. number (index_c c (sortcolumn s))
                         < length (deltaRow lib c (if iv = 0 then Second else iv) rold kv)) rnew
         \<and> sorterOk lib (length rnew) \<longrightarrow>
       (\<exists>rows. RowsFromMapDelta s lib (Map rnew) (Map rold) iv = Inr (rows, None) \<and>
          mset rows = mset (map (deltaRow lib c (if iv = 0 then Second else iv) rold) rnew)))
    \<and> RowsFromMapDelta s lib newdata olddata 0 = RowsFromMapDelta s lib newdata olddata Second"
proof -
  define iv' where "iv' = (if iv = 0 then Second else iv)"
  define built where "built = map (deltaRow lib c iv' rold) rnew"
  from assms(3) have "takeWhile (agrees c rold) rnew = rnew" by (simp add: list_all_iff)
  with deltaRows_spec[OF assms(2), of lib c iv' "[]"] assms(3)
  have loop: "deltaRows lib c iv' rold rnew [] = Inr (built, None)"
    by (simp add: built_def)
  have run: "RowsFromMapDelta s lib (Map rnew) (Map rold) iv =
      (case sortRows c lib built (sortcolumn s) of Inl p \<Rightarrow> Inl p | Inr rows \<Rightarrow> Inr (rows, None))"
    unfolding RowsFromMapDelta_run assms(1) iv'_def[symmetric] loop by simp
  have ret: "\<exists>rows. RowsFromMapDelta s lib (Map rnew) (Map rold) iv = Inr (rows, None) \<and>
      mset rows = mset built"
    if inr: "list_all (\<lambda>kv. number (index_c c (sortcolumn s)) < length (deltaRow lib c iv' rold kv)) rnew"
      and ok: "sorterOk lib (length rnew)"
  proof -
    from inr have "\<forall>row\<in>set built. number (index_c c (sortcolumn s)) < length row"
      by (auto simp: built_def list_all_iff)
    moreover from ok have "sorterOk lib (length built)" by (simp add: built_def)
    ultimately obtain rows where "sortRows c lib built (sortcolumn s) = Inr rows"
      and "mset rows = mset built"
      using sortRows_in_range by blast
    then show ?thesis unfolding run by simp
  qed
  have zero: "RowsFromMapDelta s lib newdata olddata 0 = RowsFromMapDelta s lib newdata olddata Second"
    by (simp add: RowsFromMapDelta_def Second_def)
  from loop run ret zero show ?thesis
    unfolding iv'_def built_def by blast
qed

theorem delta_cells_rate_witness:
  "RowsFromMapDelta exCounter exLib
     (Map [(''cpu1'', Struct [(''Count'', VInt ''int'' 120)]),
           (''cpu0'', Struct [(''Count'', VInt ''int'' 110)])])
     (Map [(''cpu0'', Struct [(''Count'', VInt ''int'' 100)]),
           (''cpu1'', Struct [(''Count'', VInt ''int'' 100)])]) (10 * Second)
   = Inr ([[''1''], [''2'']], None)"
proof -
  let ?rnew = "[(''cpu1'', Struct [(''Count'', VInt ''int'' 120)]),
                (''cpu0'', Struct [(''Count'', VInt ''int'' 110)])] :: (string \<times> rat rvalue) list"
  let ?rold = "[(''cpu0'', Struct [(''Count'', VInt ''int'' 100)]),
                (''cpu1'', Struct [(''Count'', VInt ''int'' 100)])] :: (string \<times> rat rvalue) list"
  have sh: "list_all (\<lambda>kv. sameShaped (snd kv) (MapIndex ?rold (fst kv))) ?rnew"
    by (simp add: sameShaped_def MapIndex_def exported_def)
  have ag: "list_all (agrees (columns exCounter) ?rold) ?rnew"
    by (simp add: agrees_def typesAgree_def oldRow_def fieldsOf_def MapIndex_def TypeOf_def)
  have rows: "map (deltaRow exLib (columns exCounter) (10 * Second) ?rold) ?rnew = [[''2''], [''1'']]"
    by (simp add: deltaRow_def specRow_def specCell_def rateCell_def oldRow_def fieldsOf_def
        MapIndex_def shown_def index_c_def exCounter_def Second_def exLib_def exSprintf_def
        showNat.simps)
  have inr: "list_all (\<lambda>kv. number (index_c (columns exCounter) (sortcolumn exCounter))
        < length (deltaRow exLib (columns exCounter) (if 10 * Second = 0 then Second else 10 * Second)
                    ?rold kv)) ?rnew \<and> sorterOk exLib (length ?rnew)"
    by (simp add: deltaRow_def specRow_def oldRow_def fieldsOf_def MapIndex_def shown_def
        index_c_def exCounter_def Second_def sorterOk_def)
  have srt: "sortRows (columns exCounter) exLib [[''2''], [''1'']] (sortcolumn exCounter)
      = Inr [[''1''], [''2'']]"
    by (simp add: sortRows_def SortSlice_def less_rows_def index_c_def exCounter_def)
  note inst = delta_cells_rate[OF refl sh ag, where lib = exLib and iv = "10 * Second"]
  from inst inr have "\<exists>rows. RowsFromMapDelta exCounter exLib (Map ?rnew) (Map ?rold) (10 * Second)
      = Inr (rows, None)" by blast
  moreover from inst have "RowsFromMapDelta exCounter exLib (Map ?rnew) (Map ?rold) (10 * Second) =
      (case sortRows (columns exCounter) exLib
              (map (deltaRow exLib (columns exCounter)
                      (if 10 * Second = 0 then Second else 10 * Second) ?rold) ?rnew)
              (sortcolumn exCounter) of
         Inl p \<Rightarrow> Inl p
       | Inr rows \<Rightarrow> Inr (rows, None))" by blast
  then have "RowsFromMapDelta exCounter exLib (Map ?rnew) (Map ?rold) (10 * Second)
      = Inr ([[''1''], [''2'']], None)"
    using rows srt by (simp add: Second_def)
  ultimately show ?thesis by simp
qed

text \<open>The claim as stated fails on a negative interval: with -10 seconds the cell is
  (110 - 100) / -10, not the raw delta that a divisor of one second gives.\<close>

theorem negative_interval_counterexample:
  "RowsFromMapDelta exCounter exLib
     (Map [(''k'', Struct [(''Count'', VInt ''int'' 110)])])
     (Map [(''k'', Struct [(''Count'', VInt ''int'' 100)])]) (- 10 * Second)
   = Inr ([[''-1'']], None) \<and>
   RowsFromMapDelta exCounter exLib
     (Map [(''k'', Struct [(''Count'', VInt ''int'' 110)])])
     (Map [(''k'', Struct [(''Count'', VInt ''int'' 100)])]) (1 * Second)
   = Inr ([[''10'']], None)"
  by (simp add: RowsFromMapDelta_def exCounter_def MapIndex_def rowFromStruct_def
      fieldNames_def exported_def index_c_def TypeOf_def sortRows_def SortSlice_def Second_def
      exLib_def exSprintf_def showInt_def showNat.simps)

section \<open>Type mismatches in delta mode\<close>

lemma typesAgree_nth:
  "typesAgree c fs prevs \<Longrightarrow> i < length fs \<Longrightarrow> i < length prevs \<Longrightarrow> shown c (fst (fs ! i)) \<Longrightarrow>
   TypeOf (prevs ! i) = TypeOf (snd (fs ! i))"
proof (induction fs arbitrary: prevs i)
  case Nil
  then show ?case by simp
next
  case (Cons f fs)
  from Cons.prems(3) obtain p ps where prevs: "prevs = p # ps" by (cases prevs) auto
  show ?case
  proof (cases i)
    case 0
    with Cons.prems(1,4) show ?thesis
      by (cases f) (simp add: typesAgree_def prevs)
  next
    case (Suc j)
    from Cons.prems(1) have "typesAgree c fs ps" by (simp add: typesAgree_def prevs)
    from Cons.IH[OF this, of j] Cons.prems(2,3,4) Suc show ?thesis by (simp add: prevs)
  qed
qed

lemma mismatch_disagrees:
  assumes "sameShaped (Struct fs) (MapIndex rold k)" and "MapIndex rold k = Struct os"
    and "i < length fs" and "shown c (fst (fs ! i))"
    and "TypeOf (snd (os ! i)) \<noteq> TypeOf (snd (fs ! i))"
  shows "\<not> agrees c rold (k, Struct fs)"
proof
  assume "agrees c rold (k, Struct fs)"
  then have ag: "typesAgree c fs (map snd os)"
    by (simp add: agrees_def oldRow_def fieldsOf_def assms(2))
  from assms(1) have "map fst os = map fst fs"
    by (simp add: sameShaped_def assms(2))
  then have len: "length os = length fs" by (rule map_eq_imp_length_eq)
  from typesAgree_nth[OF ag assms(3) _ assms(4)] len assms(3)
  have "TypeOf (snd (os ! i)) = TypeOf (snd (fs ! i))" by simp
  with assms(5) show False by contradiction
qed

text \<open>
  C3 (amended). A key of the current map with a same-shaped previous record in which
  some shown field holds values of different types, every key before it in iteration
  order having a same-shaped previous record too: \<open>RowsFromMapDelta\<close> returns the
  type-mismatch error, and the build is aborted there, since the entries after that
  key have no influence on what is returned.
\<close>

theorem type_mismatch_aborts:
  assumes "columns s = c"
    and "list_all (\<lambda>kv. sameShaped (snd kv) (MapIndex rold (fst kv))) pre"
    and "sameShaped (Struct fs) (MapIndex rold k)" and "MapIndex rold k = Struct os"
    and "i < length fs" and "shown c (fst (fs ! i))"
    and "TypeOf (snd (os ! i)) \<noteq> TypeOf (snd (fs ! i))"
  shows "(\<exists>rows. RowsFromMapDelta s lib (Map (pre @ (k, Struct fs) # post)) (Map rold) iv =
            Inr (rows, Some ErrTypeMismatch))
    \<and> RowsFromMapDelta s lib (Map (pre @ (k, Struct fs) # post')) (Map rold) iv =
      RowsFromMapDelta s lib (Map (pre @ (k, Struct fs) # post)) (Map rold) iv"
proof -
  from mismatch_disagrees[OF assms(3-7)] have dis: "\<not> agrees c rold (k, Struct fs)" .
  note stops = deltaRows_stops[OF assms(2,3) dis, of lib "if iv = 0 then Second else iv" _ "[]"]
  show ?thesis
    unfolding RowsFromMapDelta_run assms(1) stops by simp
qed

theorem type_mismatch_aborts_witness:
  "\<exists>rows. RowsFromMapDelta exCounter exLib
     (Map [(''a'', Struct [(''Count'', VInt ''int'' 7)]), (''k'', Struct [(''Count'', VInt ''int'' 110)]),
           (''z'', Struct [(''Count'', VInt ''int'' 1)])])
     (Map [(''a'', Struct [(''Count'', VInt ''int'' 5)]),
           (''k'', Struct [(''Count'', VString ''string'' ''oops'')])])
     0
   = Inr (rows, Some ErrTypeMismatch)"
  using type_mismatch_aborts[of exCounter "columns exCounter"
      "[(''a'', Struct [(''Count'', VInt ''int'' 5)]), (''k'', Struct [(''Count'', VString ''string'' ''oops'')])]"
      "[(''a'', Struct [(''Count'', VInt ''int'' 7)])]"
      "[(''Count'', VInt ''int'' 110)]" "''k''" "[(''Count'', VString ''string'' ''oops'')]" 0
      exLib "[(''z'', Struct [(''Count'', VInt ''int'' 1)])]" 0]
  by (simp add: exCounter_def sameShaped_def MapIndex_def exported_def shown_def index_c_def
      TypeOf_def)

text \<open>The claim as stated fails for a field that is not shown: the two values of the
  OMIT field \<open>Stamp\<close> differ in type, and the build returns the table and no error.\<close>

theorem omitted_mismatch_counterexample:
  "TypeOf (VString ''string'' ''oops'' :: rat govalue) \<noteq> TypeOf (VInt ''uint64'' 99 :: rat govalue) \<and>
   RowsFromMapDelta exSampler exLib
     (Map [(''k'', Struct [(''Name'', VString ''string'' ''cpu0''), (''User'', VInt ''uint64'' 110),
                           (''Stamp'', VInt ''uint64'' 99)])])
     (Map [(''k'', Struct [(''Name'', VString ''string'' ''cpu0''), (''User'', VInt ''uint64'' 100),
                           (''Stamp'', VString ''string'' ''oops'')])])
     (10 * Second)
   = Inr ([[''cpu0'', ''1'']], None)"
  by (simp add: RowsFromMapDelta_def exSampler_def exColumns_def MapIndex_def rowFromStruct_def
      fieldNames_def exported_def index_c_def TypeOf_def sortRows_def SortSlice_def Second_def
      exLib_def exSprintf_def showInt_def showNat.simps)

text \<open>The wrapper does not look at the error of \<open>RowsFromMapDelta\<close>: whatever rows come
  with it are the rows handed to \<open>UpdateTable\<close>.\<close>

lemma UpdateTableFromMapDelta_ignores_error:
  "RowsFromMapDelta s lib newdata olddata iv = Inr (rows, e) \<Longrightarrow>
   UpdateTableFromMapDelta s lib newdata olddata iv = Inr (columnnames s, rows)"
  by (simp add: UpdateTableFromMapDelta_def)

section \<open>Omitted fields\<close>

lemma deltaCells_cong_old:
  "length ro' = length ro \<Longrightarrow>
   (\<forall>k<length fs. shown c (fst (fs ! k)) \<longrightarrow> ro' ! (i + k) = ro ! (i + k)) \<Longrightarrow>
   deltaCells lib c iv ro' i fs cells = deltaCells lib c iv ro i fs cells"
proof (induction fs arbitrary: i cells)
  case Nil
  then show ?case by simp
next
  case (Cons f fs)
  obtain fieldname newcell where f: "f = (fieldname, newcell)" by (cases f)
  have rest: "\<forall>k<length fs. shown c (fst (fs ! k)) \<longrightarrow> ro' ! (Suc i + k) = ro ! (Suc i + k)"
  proof (intro allI impI)
    fix k assume "k < length fs" and "shown c (fst (fs ! k))"
    with Cons.prems(2)[rule_format, of "Suc k"] show "ro' ! (Suc i + k) = ro ! (Suc i + k)"
      by simp
  qed
  note IH = Cons.IH[OF Cons.prems(1) rest]
  show ?case
  proof (cases "shown c fieldname")
    case False
    then show ?thesis using IH by (simp add: f shown_def)
  next
    case True
    with Cons.prems(2)[rule_format, of 0] have "ro' ! i = ro ! i" by (simp add: f)
    then show ?thesis using IH Cons.prems(1)
      by (simp add: f Let_def split: option.splits)
  qed
qed

lemma deltaCells_cong_new:
  "length fs' = length fs \<Longrightarrow>
   (\<forall>k<length fs. fst (fs' ! k) = fst (fs ! k) \<and> (shown c (fst (fs ! k)) \<longrightarrow> fs' ! k = fs ! k)) \<Longrightarrow>
   deltaCells lib c iv ro i fs' cells = deltaCells lib c iv ro i fs cells"
proof (induction fs' fs arbitrary: i cells rule: list_induct2)
  case Nil
  then show ?case by simp
next
  case (Cons f' fs' f fs)
  obtain fieldname newcell where f: "f = (fieldname, newcell)" by (cases f)
  obtain fieldname' newcell' where f': "f' = (fieldname', newcell')" by (cases f')
  from Cons.prems[rule_format, of 0] have nm: "fieldname' = fieldname"
    and same: "shown c fieldname \<longrightarrow> f' = f"
    by (simp_all add: f f')
  have rest: "\<forall>k<length fs. fst (fs' ! k) = fst (fs ! k) \<and> (shown c (fst (fs ! k)) \<longrightarrow> fs' ! k = fs ! k)"
  proof (intro allI impI)
    fix k assume "k < length fs"
    with Cons.prems[rule_format, of "Suc k"]
    show "fst (fs' ! k) = fst (fs ! k) \<and> (shown c (fst (fs ! k)) \<longrightarrow> fs' ! k = fs ! k)"
      by simp
  qed
  note IH = Cons.IH[OF rest]
  show ?case
  proof (cases "shown c fieldname")
    case False
    then show ?thesis using IH by (simp add: f f' nm shown_def)
  next
    case True
    with same have "f' = f" by simp
    then show ?thesis using IH by (simp add: f Let_def split: option.splits)
  qed
qed

lemma renderCells_cong:
  "length fs' = length fs \<Longrightarrow>
   (\<forall>k<length fs. fst (fs' ! k) = fst (fs ! k) \<and> (shown c (fst (fs ! k)) \<longrightarrow> fs' ! k = fs ! k)) \<Longrightarrow>
   renderCells lib c fs' cells = renderCells lib c fs cells"
proof (induction fs' fs arbitrary: cells rule: list_induct2)
  case Nil
  then show ?case by simp
next
  case (Cons f' fs' f fs)
  obtain fieldname newcell where f: "f = (fieldname, newcell)" by (cases f)
  obtain fieldname' newcell' where f': "f' = (fieldname', newcell')" by (cases f')
  from Cons.prems[rule_format, of 0] have nm: "fieldname' = fieldname"
    and same: "shown c fieldname \<longrightarrow> f' = f"
    by (simp_all add: f f')
  have rest: "\<forall>k<length fs. fst (fs' ! k) = fst (fs ! k) \<and> (shown c (fst (fs ! k)) \<longrightarrow> fs' ! k = fs ! k)"
  proof (intro allI impI)
    fix k assume "k < length fs"
    with Cons.prems[rule_format, of "Suc k"]
    show "fst (fs' ! k) = fst (fs ! k) \<and> (shown c (fst (fs ! k)) \<longrightarrow> fs' ! k = fs ! k)"
      by simp
  qed
  note IH = Cons.IH[OF rest]
  show ?case
  proof (cases "shown c fieldname")
    case False
    then show ?thesis using IH by (simp add: f f' nm shown_def)
  next
    case True
    with same have "f' = f" by simp
    then show ?thesis using IH by (simp add: f Let_def split: option.splits)
  qed
qed

lemma update_omitted:
  assumes "i < length fs" and "\<not> shown c (fst (fs ! i))"
  shows "length (fs[i := (fst (fs ! i), cur)]) = length fs"
    and "\<forall>k<length fs. fst (fs[i := (fst (fs ! i), cur)] ! k) = fst (fs ! k) \<and>
           (shown c (fst (fs ! k)) \<longrightarrow> fs[i := (fst (fs ! i), cur)] ! k = fs ! k)"
  using assms by (auto simp: nth_list_update)

text \<open>
  C8 (amended). For a record of a struct type and the registry derived from it, a field
  whose display name is \<open>OMIT\<close>: the name \<open>OMIT\<close> is not among the column names, which
  are the display names of the shown fields in order; \<open>rowFromStruct\<close> still projects
  the field's value (and returns the row when the fields are exported); and the cell
  loops skip the field before any kind check or delta
  computation, so that replacing its current or its previous value by any value of any
  kind changes neither the rendered row nor the outcome of the delta loop.
\<close>

theorem omitted_field_skipped:
  assumes "ColumnInfo (StructType ts) = Inr (c, n, sc, None)" and "distinct (map fst ts)"
    and "map fst fs = map fst ts"
    and "i < length fs" and "name (index_c c (fst (fs ! i))) = ''OMIT''"
  shows "''OMIT'' \<notin> set n
    \<and> n = map (\<lambda>f. name (index_c c f)) (filter (shown c) (map fst ts))
    \<and> (\<forall>row e. rowFromStruct c (Struct fs) = Inr (row, e) \<longrightarrow>
          length row = length fs \<and> row ! i = snd (fs ! i))
    \<and> (list_all exported (map fst fs) \<longrightarrow> rowFromStruct c (Struct fs) = Inr (map snd fs, None))
    \<and> renderCells lib c (fs[i := (fst (fs ! i), cur)]) [] = renderCells lib c fs []
    \<and> deltaCells lib c iv ro 0 (fs[i := (fst (fs ! i), cur)]) [] = deltaCells lib c iv ro 0 fs []
    \<and> deltaCells lib c iv (ro[i := prev]) 0 fs [] = deltaCells lib c iv ro 0 fs []"
proof -
  from assms(5) have om: "\<not> shown c (fst (fs ! i))" by (simp add: shown_def)
  have names: "n = map (\<lambda>f. name (index_c c f)) (filter (shown c) (map fst ts))"
    by (rule ColumnInfo_registry(2)[OF assms(1,2)])
  then have "''OMIT'' \<notin> set n" by (auto simp: shown_def)
  moreover have "\<forall>row e. rowFromStruct c (Struct fs) = Inr (row, e) \<longrightarrow>
      length row = length fs \<and> row ! i = snd (fs ! i)"
    using assms(4) by (simp add: rowFromStruct_Struct)
  moreover have "list_all exported (map fst fs) \<longrightarrow>
      rowFromStruct c (Struct fs) = Inr (map snd fs, None)"
    by (simp add: rowFromStruct_Struct)
  moreover have "renderCells lib c (fs[i := (fst (fs ! i), cur)]) [] = renderCells lib c fs []"
    by (rule renderCells_cong[OF update_omitted[OF assms(4) om]])
  moreover have "deltaCells lib c iv ro 0 (fs[i := (fst (fs ! i), cur)]) [] =
      deltaCells lib c iv ro 0 fs []"
    by (rule deltaCells_cong_new[OF update_omitted[OF assms(4) om]])
  moreover have "deltaCells lib c iv (ro[i := prev]) 0 fs [] = deltaCells lib c iv ro 0 fs []"
  proof (rule deltaCells_cong_old)
    show "length (ro[i := prev]) = length ro" by simp
    show "\<forall>k<length fs. shown c (fst (fs ! k)) \<longrightarrow> ro[i := prev] ! (0 + k) = ro ! (0 + k)"
    proof (intro allI impI)
      fix k assume "shown c (fst (fs ! k))"
      with om have "k \<noteq> i" by auto
      then show "ro[i := prev] ! (0 + k) = ro ! (0 + k)" by simp
    qed
  qed
  ultimately show ?thesis using names by blast
qed

theorem omitted_field_skipped_witness:
  "''OMIT'' \<notin> set [''cpuName'', ''User''] \<and>
   deltaCells exLib exColumns (10 * Second)
     [VString ''string'' ''cpu0'', VInt ''uint64'' 100, VString ''string'' ''oops''] 0
     [(''Name'', VString ''string'' ''cpu0''), (''User'', VInt ''uint64'' 110),
      (''Stamp'', VInt ''uint64'' 99)] []
   = Inr ([''cpu0'', ''1''], None)"
proof -
  let ?fs = "[(''Name'', VString ''string'' ''cpu0''), (''User'', VInt ''uint64'' 110),
              (''Stamp'', VInt ''uint64'' 99)] :: (string \<times> rat govalue) list"
  let ?ro = "[VString ''string'' ''cpu0'', VInt ''uint64'' 100, VInt ''uint64'' 98] :: rat govalue list"
  have d: "distinct (map fst exFields)" by (simp add: exFields_def)
  have shape: "map fst ?fs = map fst exFields" by (simp add: exFields_def)
  have ilt: "2 < length ?fs" by simp
  have nm: "name (index_c exColumns (fst (?fs ! 2))) = ''OMIT''"
    by (simp add: exColumns_def index_c_def)
  note inst = omitted_field_skipped[OF exColumns_derived d shape ilt nm,
      where lib = exLib and iv = "10 * Second" and ro = ?ro
        and prev = "VString ''string'' ''oops''"]
  from inst have 1: "''OMIT'' \<notin> set [''cpuName'', ''User'']" by blast
  from inst have 2: "deltaCells exLib exColumns (10 * Second)
      (?ro[2 := VString ''string'' ''oops'']) 0 ?fs [] =
      deltaCells exLib exColumns (10 * Second) ?ro 0 ?fs []" by blast
  have 3: "?ro[2 := VString ''string'' ''oops''] =
      [VString ''string'' ''cpu0'', VInt ''uint64'' 100, VString ''string'' ''oops'']"
    by (simp add: numeral_2_eq_2)
  have 4: "deltaCells exLib exColumns (10 * Second) ?ro 0 ?fs [] = Inr ([''cpu0'', ''1''], None)"
    by (simp add: exColumns_def index_c_def TypeOf_def Second_def exLib_def exSprintf_def
        showNat.simps)
  from 1 2[unfolded 3] 4 show ?thesis by simp
qed

text \<open>The claim as stated fails on the kind check: an integer against a float in the
  OMIT field \<open>Stamp\<close> builds the table, the same pair in the shown field \<open>User\<close> is
  the type-mismatch error.\<close>

theorem omitted_kind_check_counterexample:
  "RowsFromMapDelta exSampler exLib
     (Map [(''k'', Struct [(''Name'', VString ''string'' ''cpu0''), (''User'', VInt ''uint64'' 110),
                           (''Stamp'', VInt ''uint64'' 5)])])
     (Map [(''k'', Struct [(''Name'', VString ''string'' ''cpu0''), (''User'', VInt ''uint64'' 100),
                           (''Stamp'', VFloat ''float64'' 1)])])
     (10 * Second)
   = Inr ([[''cpu0'', ''1'']], None) \<and>
   RowsFromMapDelta exSampler exLib
     (Map [(''k'', Struct [(''Name'', VString ''string'' ''cpu0''), (''User'', VInt ''uint64'' 110),
                           (''Stamp'', VInt ''uint64'' 5)])])
     (Map [(''k'', Struct [(''Name'', VString ''string'' ''cpu0''), (''User'', VFloat ''float64'' 100),
                           (''Stamp'', VInt ''uint64'' 5)])])
     (10 * Second)
   = Inr ([], Some ErrTypeMismatch)"
  by (simp add: RowsFromMapDelta_def exSampler_def exColumns_def MapIndex_def rowFromStruct_def
      fieldNames_def exported_def index_c_def TypeOf_def sortRows_def SortSlice_def Second_def
      exLib_def exSprintf_def showInt_def showNat.simps)

end
